theory Spec2Isabelle
  imports Complex_Main
begin

section \<open>The engine of src/core/Engine.js\<close>

text \<open>
  The development embeds \<^verbatim>\<open>Engine.create\<close>, \<^verbatim>\<open>Engine.run\<close> (its frame callback
  \<^verbatim>\<open>render\<close>), \<^verbatim>\<open>Engine.update\<close>, \<^verbatim>\<open>_triggerMouseEvents\<close> and
  \<^verbatim>\<open>_triggerCollisionEvents\<close>.

  Numbers are JavaScript numbers in the source. Here a finite number is a rational;
  rounding, \<^verbatim>\<open>NaN\<close> and the infinities are outside the model, and the one division
  whose divisor the engine does not fix (\<^verbatim>\<open>delta / timing.delta\<close>) returns an option,
  \<open>None\<close> standing for a non-finite quotient. Iteration counts are integers.
\<close>

type_synonym number = rat

subsection \<open>Data\<close>

text \<open>\<^verbatim>\<open>engine.timing\<close>, as \<^verbatim>\<open>Engine.create\<close> lays it out.\<close>

record timing =
  fps :: number
  timestamp :: number
  delta :: number
  correction :: "number option"
  deltaMin :: number
  deltaMax :: number

text \<open>
  The engine object. The scalar settings that Engine.js reads are fields. Everything
  else that hangs off the engine (\<^verbatim>\<open>world\<close> with its bodies and constraints,
  \<^verbatim>\<open>pairs\<close>, \<^verbatim>\<open>metrics\<close>, \<^verbatim>\<open>input\<close>, \<^verbatim>\<open>render\<close>, \<^verbatim>\<open>mouseConstraint\<close>,
  \<^verbatim>\<open>broadphase\<close>, \<^verbatim>\<open>events\<close>) is one store \<open>objects\<close> of an arbitrary type \<open>'w\<close>:
  these objects share bodies by reference, and the modules that work on them are not
  part of Engine.js.
\<close>

record 'w engine =
  enabled :: bool
  positionIterations :: int
  velocityIterations :: int
  constraintIterations :: int
  enableSleeping :: bool
  timeScale :: number
  timing :: timing
  objects :: 'w

text \<open>
  The local \<^verbatim>\<open>broadphasePairs\<close> of \<^verbatim>\<open>Engine.update\<close> is a reference to one of two
  lists of the store.
\<close>

datatype broadphasePairs = InstancePairsList | WorldBodies

text \<open>The event objects that Engine.js builds: \<^verbatim>\<open>{timestamp: t}\<close>, \<^verbatim>\<open>{pairs: l}\<close>,
  \<^verbatim>\<open>{mouse: mouse}\<close>.\<close>

datatype 'p event = TimestampEvent number | PairsEvent "'p list" | MouseEvent

text \<open>
  Every call that Engine.js makes into another module is recorded, with its scalar
  arguments, in the order in which it is made. \<open>EngineUpdate\<close> and
  \<open>EngineUpdateReturn\<close> mark the entry into \<^verbatim>\<open>Engine.update\<close> and its return.
\<close>

datatype ('c, 'p) call =
    RequestAnimationFrame
  | EventsTrigger string "'p event"
  | EngineUpdate number "number option"
  | MetricsReset
  | SleepingUpdate
  | BodyApplyGravityAll
  | MouseConstraintUpdate
  | BodyUpdateAll number "number option"
  | ConstraintUpdateAll
  | BroadphaseControllerUpdate
  | BroadphaseDetector broadphasePairs 'c
  | ManagerUpdatePairs 'c number
  | ManagerRemoveOldPairs number
  | SleepingAfterCollisions
  | ResolverPreSolveVelocity
  | ResolverSolveVelocity
  | ResolverSolvePosition
  | ResolverPostSolvePosition
  | MetricsUpdate
  | BodyResetForcesAll
  | EngineUpdateReturn
  | MouseClearSourceEvents
  | RenderControllerWorld

text \<open>
  The modules Engine.js calls (\<^verbatim>\<open>Metrics\<close>, \<^verbatim>\<open>Sleeping\<close>, \<^verbatim>\<open>Body\<close>,
  \<^verbatim>\<open>MouseConstraint\<close>, \<^verbatim>\<open>Constraint\<close>, the broadphase controller and detector,
  \<^verbatim>\<open>Manager\<close>, \<^verbatim>\<open>Resolver\<close>, \<^verbatim>\<open>Events\<close>, \<^verbatim>\<open>Mouse\<close>, the render controller) are
  not in the sources. Each is a parameter: an arbitrary function on the store. A module
  changes the store only; the settings of the engine (the fields above) are written by
  Engine.js alone. The detector also returns the collisions it found. The last eight
  fields are the reads that Engine.js makes of the store.
\<close>

record ('w, 'c, 'p) modules =
  Metrics_reset :: "'w \<Rightarrow> 'w"
  Sleeping_update :: "'w \<Rightarrow> 'w"
  Body_applyGravityAll :: "'w \<Rightarrow> 'w"
  MouseConstraint_update :: "'w \<Rightarrow> 'w"
  Body_updateAll :: "number \<Rightarrow> number option \<Rightarrow> 'w \<Rightarrow> 'w"
  Constraint_updateAll :: "'w \<Rightarrow> 'w"
  controller_update :: "'w \<Rightarrow> 'w"
  detector :: "broadphasePairs \<Rightarrow> 'w \<Rightarrow> 'c \<times> 'w"
  Manager_updatePairs :: "'c \<Rightarrow> number \<Rightarrow> 'w \<Rightarrow> 'w"
  Manager_removeOldPairs :: "number \<Rightarrow> 'w \<Rightarrow> 'w"
  Sleeping_afterCollisions :: "'w \<Rightarrow> 'w"
  Resolver_preSolveVelocity :: "'w \<Rightarrow> 'w"
  Resolver_solveVelocity :: "'w \<Rightarrow> 'w"
  Resolver_solvePosition :: "'w \<Rightarrow> 'w"
  Resolver_postSolvePosition :: "'w \<Rightarrow> 'w"
  Metrics_update :: "'w \<Rightarrow> 'w"
  Body_resetForcesAll :: "'w \<Rightarrow> 'w"
  Events_trigger :: "string \<Rightarrow> 'p event \<Rightarrow> 'w \<Rightarrow> 'w"
  Mouse_clearSourceEvents :: "'w \<Rightarrow> 'w"
  render_controller_world :: "'w \<Rightarrow> 'w"
  broadphase_controller :: "'w \<Rightarrow> bool"
  collisionStart :: "'w \<Rightarrow> 'p list"
  collisionActive :: "'w \<Rightarrow> 'p list"
  collisionEnd :: "'w \<Rightarrow> 'p list"
  mousemove :: "'w \<Rightarrow> bool"
  mousedown :: "'w \<Rightarrow> bool"
  mouseup :: "'w \<Rightarrow> bool"
  render_options_enabled :: "'w \<Rightarrow> bool"

text \<open>The state threaded through the code: the engine and the calls made so far.\<close>

type_synonym ('w, 'c, 'p) state = "'w engine \<times> ('c, 'p) call list"

definition note_call :: "('c, 'p) call \<Rightarrow> ('w, 'c, 'p) state \<Rightarrow> ('w, 'c, 'p) state" where
  "note_call c s = (fst s, snd s @ [c])"

definition invoke :: "('c, 'p) call \<Rightarrow> ('w \<Rightarrow> 'w) \<Rightarrow> ('w, 'c, 'p) state \<Rightarrow> ('w, 'c, 'p) state" where
  "invoke c f s = ((fst s)\<lparr>objects := f (objects (fst s))\<rparr>, snd s @ [c])"

subsection \<open>Engine.update\<close>

text \<open>
  The three \<^verbatim>\<open>for (i = 0; i < engine.N; i++)\<close> loops. The bound is read from the engine
  before every iteration, as in the source.
\<close>

function constraint_loop ::
  "('w, 'c, 'p) modules \<Rightarrow> int \<Rightarrow> ('w, 'c, 'p) state \<Rightarrow> ('w, 'c, 'p) state" where
  "constraint_loop m i s =
     (if i < constraintIterations (fst s)
      then constraint_loop m (i + 1) (invoke ConstraintUpdateAll (Constraint_updateAll m) s)
      else s)"
  by pat_completeness auto
termination
  by (relation "measure (\<lambda>(m, i, s). nat (constraintIterations (fst s) - i))")
     (auto simp: invoke_def)

function velocity_loop ::
  "('w, 'c, 'p) modules \<Rightarrow> int \<Rightarrow> ('w, 'c, 'p) state \<Rightarrow> ('w, 'c, 'p) state" where
  "velocity_loop m i s =
     (if i < velocityIterations (fst s)
      then velocity_loop m (i + 1) (invoke ResolverSolveVelocity (Resolver_solveVelocity m) s)
      else s)"
  by pat_completeness auto
termination
  by (relation "measure (\<lambda>(m, i, s). nat (velocityIterations (fst s) - i))")
     (auto simp: invoke_def)

function position_loop ::
  "('w, 'c, 'p) modules \<Rightarrow> int \<Rightarrow> ('w, 'c, 'p) state \<Rightarrow> ('w, 'c, 'p) state" where
  "position_loop m i s =
     (if i < positionIterations (fst s)
      then position_loop m (i + 1) (invoke ResolverSolvePosition (Resolver_solvePosition m) s)
      else s)"
  by pat_completeness auto
termination
  by (relation "measure (\<lambda>(m, i, s). nat (positionIterations (fst s) - i))")
     (auto simp: invoke_def)

text \<open>
  \<^verbatim>\<open>Engine.update(engine, delta, correction)\<close>, statement by statement. The primed
  names are the source's locals of the same name.
\<close>

definition Engine_update ::
  "('w, 'c, 'p) modules \<Rightarrow> number \<Rightarrow> number option \<Rightarrow> ('w, 'c, 'p) state \<Rightarrow> ('w, 'c, 'p) state" where
  "Engine_update m delta' correction' s0 =
     (let s = note_call (EngineUpdate delta' correction') s0;
          s = invoke MetricsReset (Metrics_reset m) s;
          s = (if enableSleeping (fst s) then invoke SleepingUpdate (Sleeping_update m) s else s);
          s = invoke BodyApplyGravityAll (Body_applyGravityAll m) s;
          s = invoke MouseConstraintUpdate (MouseConstraint_update m) s;
          s = invoke (BodyUpdateAll (delta' * timeScale (fst s)) correction')
                (Body_updateAll m (delta' * timeScale (fst s)) correction') s;
          s = constraint_loop m 0 s;
          (s, broadphasePairs') =
            (if broadphase_controller m (objects (fst s))
             then (invoke BroadphaseControllerUpdate (controller_update m) s, InstancePairsList)
             else (s, WorldBodies));
          (collisions, w) = detector m broadphasePairs' (objects (fst s));
          s = invoke (BroadphaseDetector broadphasePairs' collisions) (\<lambda>_. w) s;
          timestamp' = timestamp (timing (fst s));
          s = invoke (ManagerUpdatePairs collisions timestamp')
                (Manager_updatePairs m collisions timestamp') s;
          s = invoke (ManagerRemoveOldPairs timestamp') (Manager_removeOldPairs m timestamp') s;
          s = (if enableSleeping (fst s)
               then invoke SleepingAfterCollisions (Sleeping_afterCollisions m) s else s);
          s = invoke ResolverPreSolveVelocity (Resolver_preSolveVelocity m) s;
          s = velocity_loop m 0 s;
          s = position_loop m 0 s;
          s = invoke ResolverPostSolvePosition (Resolver_postSolvePosition m) s;
          s = invoke MetricsUpdate (Metrics_update m) s;
          s = invoke BodyResetForcesAll (Body_resetForcesAll m) s
      in note_call EngineUpdateReturn s)"

subsection \<open>Engine.run\<close>

text \<open>
  The private constants \<^verbatim>\<open>_fps\<close>, \<^verbatim>\<open>_deltaSampleSize\<close> and \<^verbatim>\<open>_delta\<close> (an Isabelle
  name cannot start with an underscore).
\<close>

definition u_fps :: number where
  "u_fps = 60"

definition u_deltaSampleSize :: nat where
  "u_deltaSampleSize = 8"

definition u_delta :: number where
  "u_delta = 1000 / u_fps"

text \<open>\<^verbatim>\<open>delta / timing.delta\<close>: the quotient of two finite numbers is finite unless the
  divisor is zero.\<close>

definition js_divide :: "number \<Rightarrow> number \<Rightarrow> number option" where
  "js_divide a b = (if b = 0 then None else Some (a / b))"

text \<open>
  The variables that the closure \<^verbatim>\<open>render\<close> keeps between frames. (\<^verbatim>\<open>delta\<close> and
  \<^verbatim>\<open>correction\<close> are assigned in every frame before they are read, so they are
  locals below. \<^verbatim>\<open>timing\<close> is \<^verbatim>\<open>engine.timing\<close>.)
\<close>

record run_vars =
  counterTimestamp :: number
  frameCounter :: number
  deltaHistory :: "number list"

definition triggerMouseEvents ::
  "('w, 'c, 'p) modules \<Rightarrow> ('w, 'c, 'p) state \<Rightarrow> ('w, 'c, 'p) state" where
  "triggerMouseEvents m s0 =
     (let s = (if mousemove m (objects (fst s0))
               then invoke (EventsTrigger ''mousemove'' MouseEvent)
                      (Events_trigger m ''mousemove'' MouseEvent) s0 else s0);
          s = (if mousedown m (objects (fst s))
               then invoke (EventsTrigger ''mousedown'' MouseEvent)
                      (Events_trigger m ''mousedown'' MouseEvent) s else s);
          s = (if mouseup m (objects (fst s))
               then invoke (EventsTrigger ''mouseup'' MouseEvent)
                      (Events_trigger m ''mouseup'' MouseEvent) s else s)
      in invoke MouseClearSourceEvents (Mouse_clearSourceEvents m) s)"

definition triggerCollisionEvents ::
  "('w, 'c, 'p) modules \<Rightarrow> ('w, 'c, 'p) state \<Rightarrow> ('w, 'c, 'p) state" where
  "triggerCollisionEvents m s0 =
     (let s = (if length (collisionStart m (objects (fst s0))) > 0
               then invoke (EventsTrigger ''collisionStart'' (PairsEvent (collisionStart m (objects (fst s0)))))
                      (Events_trigger m ''collisionStart'' (PairsEvent (collisionStart m (objects (fst s0))))) s0
               else s0);
          s = (if length (collisionActive m (objects (fst s))) > 0
               then invoke (EventsTrigger ''collisionActive'' (PairsEvent (collisionActive m (objects (fst s)))))
                      (Events_trigger m ''collisionActive'' (PairsEvent (collisionActive m (objects (fst s))))) s
               else s);
          s = (if length (collisionEnd m (objects (fst s))) > 0
               then invoke (EventsTrigger ''collisionEnd'' (PairsEvent (collisionEnd m (objects (fst s)))))
                      (Events_trigger m ''collisionEnd'' (PairsEvent (collisionEnd m (objects (fst s))))) s
               else s)
      in s)"

text \<open>
  One call of the frame callback \<^verbatim>\<open>render(timestamp)\<close>. The argument is \<open>None\<close> when
  the callback is called without a timestamp (the first call, made by \<^verbatim>\<open>Engine.run\<close>
  itself). \<open>delta0\<close> to \<open>delta3\<close> are the successive values of the local \<^verbatim>\<open>delta\<close>.
\<close>

definition render ::
  "('w, 'c, 'p) modules \<Rightarrow> number option \<Rightarrow> run_vars \<times> ('w, 'c, 'p) state
     \<Rightarrow> run_vars \<times> ('w, 'c, 'p) state" where
  "render m timestamp0 vs =
     (let vars = fst vs;
          s = note_call RequestAnimationFrame (snd vs)
      in if \<not> enabled (fst s) then (vars, s)
         else
          (let timestamp' = (case timestamp0 of None \<Rightarrow> 0 | Some t \<Rightarrow> t);
               event = TimestampEvent timestamp';
               s = invoke (EventsTrigger ''beforeTick'' event) (Events_trigger m ''beforeTick'' event) s;
               timing' = timing (fst s);
               delta0 = (if timestamp' - timestamp timing' = 0 then u_delta
                         else timestamp' - timestamp timing');
               history = deltaHistory vars @ [delta0];
               history = drop (length history - u_deltaSampleSize) history;
               delta1 = min_list history;
               delta2 = (if delta1 < deltaMin timing' then deltaMin timing' else delta1);
               delta3 = (if delta2 > deltaMax timing' then deltaMax timing' else delta2);
               correction' = js_divide delta3 (delta timing');
               timing' = timing'\<lparr>timestamp := timestamp', correction := correction', delta := delta3\<rparr>;
               frameCounter' = frameCounter vars + 1;
               (timing', counterTimestamp', frameCounter') =
                 (if timestamp' - counterTimestamp vars \<ge> 1000
                  then (timing'\<lparr>fps := frameCounter' * ((timestamp' - counterTimestamp vars) / 1000)\<rparr>,
                        timestamp', 0)
                  else (timing', counterTimestamp vars, frameCounter'));
               s = ((fst s)\<lparr>timing := timing'\<rparr>, snd s);
               s = invoke (EventsTrigger ''tick beforeUpdate'' event)
                     (Events_trigger m ''tick beforeUpdate'' event) s;
               s = Engine_update m delta3 correction' s;
               s = triggerCollisionEvents m s;
               s = triggerMouseEvents m s;
               s = invoke (EventsTrigger ''afterUpdate beforeRender'' event)
                     (Events_trigger m ''afterUpdate beforeRender'' event) s;
               s = (if render_options_enabled m (objects (fst s))
                    then invoke RenderControllerWorld (render_controller_world m) s else s);
               s = invoke (EventsTrigger ''afterTick afterRender'' event)
                     (Events_trigger m ''afterTick afterRender'' event) s
           in (\<lparr>counterTimestamp = counterTimestamp', frameCounter = frameCounter',
                deltaHistory = history\<rparr>, s)))"

text \<open>\<^verbatim>\<open>Engine.run(engine)\<close>: the closure's variables are initialised and \<^verbatim>\<open>render\<close> is
  called once, without a timestamp. Every later call is made by the scheduler.\<close>

definition Engine_run ::
  "('w, 'c, 'p) modules \<Rightarrow> ('w, 'c, 'p) state \<Rightarrow> run_vars \<times> ('w, 'c, 'p) state" where
  "Engine_run m s =
     render m None (\<lparr>counterTimestamp = 0, frameCounter = 0, deltaHistory = []\<rparr>, s)"

subsection \<open>Engine.create\<close>

text \<open>
  The object literal \<^verbatim>\<open>defaults\<close>. Its \<^verbatim>\<open>pairs\<close>, \<^verbatim>\<open>input\<close> and \<^verbatim>\<open>events\<close> are the
  store \<open>w\<close>.
\<close>

definition defaults :: "'w \<Rightarrow> 'w engine" where
  "defaults w =
     \<lparr>enabled = True,
      positionIterations = 6,
      velocityIterations = 4,
      constraintIterations = 1,
      enableSleeping = False,
      timeScale = 1,
      timing = \<lparr>fps = u_fps, timestamp = 0, delta = u_delta, correction = Some 1,
                deltaMin = 1000 / u_fps, deltaMax = 1000 / (u_fps * (1 / 2))\<rparr>,
      objects = w\<rparr>"

text \<open>
  The first argument of \<^verbatim>\<open>Engine.create\<close>: a DOM element (\<^verbatim>\<open>Common.isElement\<close> holds);
  another object, which the code then takes as the engine; or \<^verbatim>\<open>null\<close> or
  \<^verbatim>\<open>undefined\<close>, on which the first property read throws. Of another object
  \<^verbatim>\<open>Engine.create\<close> reads and writes the store only (\<^verbatim>\<open>render\<close>, \<^verbatim>\<open>world\<close>,
  \<^verbatim>\<open>metrics\<close>, \<^verbatim>\<open>input\<close>, \<^verbatim>\<open>mouseConstraint\<close>, \<^verbatim>\<open>broadphase\<close>); its other
  properties, some of which may be undefined, are a value of an arbitrary type \<open>'x\<close>.
\<close>

datatype ('x, 'w) element = Element | OtherObject 'x 'w | Nullish

text \<open>
  What \<^verbatim>\<open>Engine.create\<close> returns: the engine made from the defaults, or its first
  argument, with the properties it came with and its store completed.
\<close>

datatype ('x, 'w) created = Engine "'w engine" | Argument 'x 'w

datatype error = TypeError

text \<open>
  What \<^verbatim>\<open>Engine.create\<close> calls and reads, none of it in the sources: \<^verbatim>\<open>Common.extend\<close>
  on the defaults and an options value of an arbitrary type \<open>'o\<close>, the store of the
  defaults, and the constructors and presence tests of lines 63 to 85. \<open>input_missing\<close>
  says of a store that it has no \<^verbatim>\<open>input\<close> object, so that \<^verbatim>\<open>engine.input.mouse\<close>
  throws.
\<close>

record ('w, 'o) factories =
  Common_extend :: "'w engine \<Rightarrow> 'o \<Rightarrow> 'w engine"
  defaults_objects :: 'w
  render_missing :: "'w \<Rightarrow> bool"
  Render_create :: "'w \<Rightarrow> 'w"
  element_appendChild :: "'w \<Rightarrow> 'w"
  World_create :: "'w \<Rightarrow> 'w"
  metrics_missing :: "'w \<Rightarrow> bool"
  Metrics_create :: "'w \<Rightarrow> 'w"
  input_missing :: "'w \<Rightarrow> bool"
  mouse_missing :: "'w \<Rightarrow> bool"
  Mouse_create :: "'w \<Rightarrow> 'w"
  mouseConstraint_missing :: "'w \<Rightarrow> bool"
  MouseConstraint_create :: "'w \<Rightarrow> 'w"
  World_addComposite :: "'w \<Rightarrow> 'w"
  broadphase_missing :: "'w \<Rightarrow> bool"
  Grid_create :: "'w \<Rightarrow> 'w"

fun store_of :: "('x, 'w) created \<Rightarrow> 'w" where
  "store_of (Engine e) = objects e"
| "store_of (Argument x w) = w"

fun on_store :: "('w \<Rightarrow> 'w) \<Rightarrow> ('x, 'w) created \<Rightarrow> ('x, 'w) created" where
  "on_store g (Engine e) = Engine (e\<lparr>objects := g (objects e)\<rparr>)"
| "on_store g (Argument x w) = Argument x (g w)"

text \<open>
  \<^verbatim>\<open>Engine.create(element, options)\<close>. Line 59 makes \<^verbatim>\<open>engine\<close> the extended defaults
  or the first argument; on \<^verbatim>\<open>null\<close> and \<^verbatim>\<open>undefined\<close> line 63 throws. Line 71 reads
  \<^verbatim>\<open>engine.input.mouse\<close> and throws when \<^verbatim>\<open>engine.input\<close> is missing. Lines 63 to 70
  assign \<^verbatim>\<open>engine.render\<close>, \<^verbatim>\<open>engine.world\<close> and \<^verbatim>\<open>engine.metrics\<close> only, and none of
  the functions they call is handed the engine; so the \<^verbatim>\<open>engine.input\<close> that line 71
  finds is the one the engine had after line 59, and \<open>input'\<close> is read there.
\<close>

definition Engine_create ::
  "('w, 'o) factories \<Rightarrow> ('x, 'w) element \<Rightarrow> 'o \<Rightarrow> error + ('x, 'w) created" where
  "Engine_create f element' options =
     (let engine = Common_extend f (defaults (defaults_objects f)) options
      in case (case element' of Element \<Rightarrow> Some (Engine engine)
                 | OtherObject x w \<Rightarrow> Some (Argument x w) | Nullish \<Rightarrow> None) of
           None \<Rightarrow> Inl TypeError
         | Some engine \<Rightarrow>
            (let input' = input_missing f (store_of engine);
                 engine =
                   (if render_missing f (store_of engine)
                    then (let engine = on_store (Render_create f) engine
                          in if element' = Element then on_store (element_appendChild f) engine
                             else engine)
                    else engine);
                 engine = on_store (World_create f) engine;
                 engine = (if metrics_missing f (store_of engine)
                           then on_store (Metrics_create f) engine else engine)
             in if input' then Inl TypeError
                else
                 (let engine = (if mouse_missing f (store_of engine)
                                then on_store (Mouse_create f) engine else engine);
                      engine = (if mouseConstraint_missing f (store_of engine)
                                then on_store (MouseConstraint_create f) engine else engine);
                      engine = on_store (World_addComposite f) engine;
                      engine = (if broadphase_missing f (store_of engine)
                                then on_store (Grid_create f) engine else engine)
                  in Inr engine)))"

section \<open>Vocabulary for the properties\<close>

text \<open>
  \<open>precedes P Q xs\<close>: in the list \<open>xs\<close> every element that satisfies \<open>P\<close> stands
  strictly before every element that satisfies \<open>Q\<close>.
\<close>

definition precedes :: "('a \<Rightarrow> bool) \<Rightarrow> ('a \<Rightarrow> bool) \<Rightarrow> 'a list \<Rightarrow> bool" where
  "precedes P Q xs \<longleftrightarrow>
     (\<forall>i j. i < length xs \<and> j < length xs \<and> P (xs ! i) \<and> Q (xs ! j) \<longrightarrow> i < j)"

text \<open>
  \<open>preceded_by x Q xs\<close>: every element of \<open>xs\<close> that satisfies \<open>Q\<close> has an occurrence
  of \<open>x\<close> somewhere before it.
\<close>

definition preceded_by :: "'a \<Rightarrow> ('a \<Rightarrow> bool) \<Rightarrow> 'a list \<Rightarrow> bool" where
  "preceded_by x Q xs \<longleftrightarrow> (\<forall>j. j < length xs \<and> Q (xs ! j) \<longrightarrow> x \<in> set (take j xs))"

text \<open>
  The phases that the specification names, and the calls of \<^verbatim>\<open>Engine.update\<close> that
  belong to each: the broadphase controller's update is the grid update, the broadphase
  detector is the narrow phase, \<^verbatim>\<open>Manager.updatePairs\<close> and \<^verbatim>\<open>Manager.removeOldPairs\<close>
  are the pair manager, \<^verbatim>\<open>Sleeping.afterCollisions\<close> is the wake check,
  \<^verbatim>\<open>Resolver.preSolveVelocity\<close> and \<^verbatim>\<open>Resolver.solveVelocity\<close> are the velocity solve,
  \<^verbatim>\<open>Resolver.solvePosition\<close> and \<^verbatim>\<open>Resolver.postSolvePosition\<close> the position solve,
  \<^verbatim>\<open>Metrics.update\<close> the metrics update. The integrator is \<^verbatim>\<open>Body.updateAll\<close>, the one
  call that is given \<^verbatim>\<open>delta\<close> and \<^verbatim>\<open>correction\<close>.
\<close>

datatype phase = Grid | Detect | PairMerge | SleepWake | VelocitySolve | PositionSolve | Metrics

fun phase_of :: "('c, 'p) call \<Rightarrow> phase option" where
  "phase_of BroadphaseControllerUpdate = Some Grid"
| "phase_of (BroadphaseDetector _ _) = Some Detect"
| "phase_of (ManagerUpdatePairs _ _) = Some PairMerge"
| "phase_of (ManagerRemoveOldPairs _) = Some PairMerge"
| "phase_of SleepingAfterCollisions = Some SleepWake"
| "phase_of ResolverPreSolveVelocity = Some VelocitySolve"
| "phase_of ResolverSolveVelocity = Some VelocitySolve"
| "phase_of ResolverSolvePosition = Some PositionSolve"
| "phase_of ResolverPostSolvePosition = Some PositionSolve"
| "phase_of MetricsUpdate = Some Metrics"
| "phase_of _ = None"

fun phase_rank :: "phase \<Rightarrow> nat" where
  "phase_rank Grid = 0"
| "phase_rank Detect = 1"
| "phase_rank PairMerge = 2"
| "phase_rank SleepWake = 3"
| "phase_rank VelocitySolve = 4"
| "phase_rank PositionSolve = 5"
| "phase_rank Metrics = 6"

definition phases :: "('c, 'p) call list \<Rightarrow> phase list" where
  "phases xs = List.map_filter phase_of xs"

fun is_integrator :: "('c, 'p) call \<Rightarrow> bool" where
  "is_integrator (BodyUpdateAll _ _) = True"
| "is_integrator _ = False"

definition is_resolver :: "('c, 'p) call \<Rightarrow> bool" where
  "is_resolver c \<longleftrightarrow> phase_of c = Some VelocitySolve \<or> phase_of c = Some PositionSolve"

fun is_trigger :: "('c, 'p) call \<Rightarrow> bool" where
  "is_trigger (EventsTrigger _ _) = True"
| "is_trigger _ = False"

fun is_collision_trigger :: "('c, 'p) call \<Rightarrow> bool" where
  "is_collision_trigger (EventsTrigger n _) =
     (n = ''collisionStart'' \<or> n = ''collisionActive'' \<or> n = ''collisionEnd'')"
| "is_collision_trigger _ = False"

text \<open>The arguments of the calls of \<^verbatim>\<open>Engine.update\<close> in a list of calls.\<close>

fun update_args :: "('c, 'p) call list \<Rightarrow> (number \<times> number option) list" where
  "update_args [] = []"
| "update_args (EngineUpdate d k # xs) = (d, k) # update_args xs"
| "update_args (_ # xs) = update_args xs"

text \<open>
  The words of the timing property. \<open>frame_time\<close> is the timestamp of a frame (zero
  when the callback gets none), \<open>raw_delta\<close> the time since the timestamp that the
  engine holds, with \<^verbatim>\<open>_delta\<close> standing in for a zero difference, \<open>last_n n xs\<close> the
  last \<open>n\<close> elements of \<open>xs\<close> (all of them when there are fewer), \<open>clamp\<close> the
  clamping to an interval, and \<open>frame_delta\<close> the clamped minimum of the recent raw
  deltas. They are compared below with what \<open>render\<close> computes.
\<close>

definition frame_time :: "number option \<Rightarrow> number" where
  "frame_time t = (case t of None \<Rightarrow> 0 | Some x \<Rightarrow> x)"

definition raw_delta :: "'w engine \<Rightarrow> number option \<Rightarrow> number" where
  "raw_delta e t =
     (if frame_time t = timestamp (timing e) then u_delta
      else frame_time t - timestamp (timing e))"

definition last_n :: "nat \<Rightarrow> 'a list \<Rightarrow> 'a list" where
  "last_n n xs = rev (take n (rev xs))"

definition clamp :: "number \<Rightarrow> number \<Rightarrow> number \<Rightarrow> number" where
  "clamp lo hi x = min hi (max lo x)"

definition recent_deltas :: "run_vars \<Rightarrow> 'w engine \<Rightarrow> number option \<Rightarrow> number list" where
  "recent_deltas vars e t = last_n 8 (deltaHistory vars @ [raw_delta e t])"

definition frame_delta :: "run_vars \<Rightarrow> 'w engine \<Rightarrow> number option \<Rightarrow> number" where
  "frame_delta vars e t =
     clamp (deltaMin (timing e)) (deltaMax (timing e)) (Min (set (recent_deltas vars e t)))"

text \<open>
  The calls of one \<^verbatim>\<open>Engine.update\<close> in closed form, for an engine \<open>e\<close>, the arguments
  \<open>d\<close> and \<open>k\<close>, the truth value \<open>b\<close> of \<^verbatim>\<open>broadphase.controller\<close> and the collisions
  \<open>c\<close> that the detector returned. It is proved below to be what \<open>Engine_update\<close>
  records.
\<close>

definition update_calls ::
  "'w engine \<Rightarrow> number \<Rightarrow> number option \<Rightarrow> bool \<Rightarrow> 'c \<Rightarrow> ('c, 'p) call list" where
  "update_calls e d k b c =
     [EngineUpdate d k, MetricsReset]
     @ (if enableSleeping e then [SleepingUpdate] else [])
     @ [BodyApplyGravityAll, MouseConstraintUpdate, BodyUpdateAll (d * timeScale e) k]
     @ replicate (nat (constraintIterations e)) ConstraintUpdateAll
     @ (if b then [BroadphaseControllerUpdate] else [])
     @ [BroadphaseDetector (if b then InstancePairsList else WorldBodies) c,
        ManagerUpdatePairs c (timestamp (timing e)),
        ManagerRemoveOldPairs (timestamp (timing e))]
     @ (if enableSleeping e then [SleepingAfterCollisions] else [])
     @ [ResolverPreSolveVelocity]
     @ replicate (nat (velocityIterations e)) ResolverSolveVelocity
     @ replicate (nat (positionIterations e)) ResolverSolvePosition
     @ [ResolverPostSolvePosition, MetricsUpdate, BodyResetForcesAll, EngineUpdateReturn]"

text \<open>
  The store of one \<^verbatim>\<open>Engine.update\<close> in closed form, in three parts: the store that the
  broadphase finds (after the metrics reset, the sleeping update, gravity, the mouse
  constraint, the integrator and the constraint iterations), the store and the list that
  the detector is given, and what the tick does to the store after the pair manager (the
  wake check, the resolver, the metrics update and the reset of the forces). They are
  proved below to be what \<open>Engine_update\<close> computes.
\<close>

definition store_before_broadphase ::
  "('w, 'c, 'p) modules \<Rightarrow> number \<Rightarrow> number option \<Rightarrow> 'w engine \<Rightarrow> 'w" where
  "store_before_broadphase m d k e =
     (Constraint_updateAll m ^^ nat (constraintIterations e))
       (Body_updateAll m (d * timeScale e) k
         (MouseConstraint_update m
           (Body_applyGravityAll m
             ((if enableSleeping e then Sleeping_update m else id)
               (Metrics_reset m (objects e))))))"

definition pairs_source ::
  "('w, 'c, 'p) modules \<Rightarrow> number \<Rightarrow> number option \<Rightarrow> 'w engine \<Rightarrow> broadphasePairs" where
  "pairs_source m d k e =
     (if broadphase_controller m (store_before_broadphase m d k e)
      then InstancePairsList else WorldBodies)"

definition store_at_detection ::
  "('w, 'c, 'p) modules \<Rightarrow> number \<Rightarrow> number option \<Rightarrow> 'w engine \<Rightarrow> 'w" where
  "store_at_detection m d k e =
     (if broadphase_controller m (store_before_broadphase m d k e)
      then controller_update m (store_before_broadphase m d k e)
      else store_before_broadphase m d k e)"

definition rest_of_tick :: "('w, 'c, 'p) modules \<Rightarrow> 'w engine \<Rightarrow> 'w \<Rightarrow> 'w" where
  "rest_of_tick m e w =
     Body_resetForcesAll m
       (Metrics_update m
         (Resolver_postSolvePosition m
           ((Resolver_solvePosition m ^^ nat (positionIterations e))
             ((Resolver_solveVelocity m ^^ nat (velocityIterations e))
               (Resolver_preSolveVelocity m
                 ((if enableSleeping e then Sleeping_afterCollisions m else id) w))))))"

text \<open>\<open>same_settings e e'\<close>: the engines \<open>e\<close> and \<open>e'\<close> differ in their store at most.\<close>

definition same_settings :: "'w engine \<Rightarrow> 'w engine \<Rightarrow> bool" where
  "same_settings e e' \<longleftrightarrow>
     enabled e' = enabled e \<and> positionIterations e' = positionIterations e \<and>
     velocityIterations e' = velocityIterations e \<and>
     constraintIterations e' = constraintIterations e \<and>
     enableSleeping e' = enableSleeping e \<and> timeScale e' = timeScale e \<and>
     timing e' = timing e"

text \<open>
  The calls that one \<^verbatim>\<open>Engine.update\<close> makes, and the calls that one frame makes, when
  nothing has been recorded before.
\<close>

definition tick_calls ::
  "('w, 'c, 'p) modules \<Rightarrow> number \<Rightarrow> number option \<Rightarrow> 'w engine \<Rightarrow> ('c, 'p) call list" where
  "tick_calls m d k e = snd (Engine_update m d k (e, []))"

definition frame_calls ::
  "('w, 'c, 'p) modules \<Rightarrow> number option \<Rightarrow> run_vars \<Rightarrow> 'w engine \<Rightarrow> ('c, 'p) call list" where
  "frame_calls m t vars e = snd (snd (render m t (vars, (e, []))))"

subsection \<open>Concrete engines\<close>

text \<open>
  A store that counts the calls made on it, modules that count, a detector that
  returns the count as its collisions, and pair lists of which \<^verbatim>\<open>collisionStart\<close> is
  never empty.
\<close>

definition counting :: "(nat, nat, nat) modules" where
  "counting =
     \<lparr>Metrics_reset = Suc, Sleeping_update = Suc, Body_applyGravityAll = Suc,
      MouseConstraint_update = Suc, Body_updateAll = (\<lambda>_ _. Suc), Constraint_updateAll = Suc,
      controller_update = Suc, detector = (\<lambda>_ w. (w, Suc w)),
      Manager_updatePairs = (\<lambda>_ _. Suc), Manager_removeOldPairs = (\<lambda>_. Suc),
      Sleeping_afterCollisions = Suc, Resolver_preSolveVelocity = Suc,
      Resolver_solveVelocity = Suc, Resolver_solvePosition = Suc,
      Resolver_postSolvePosition = Suc, Metrics_update = Suc, Body_resetForcesAll = Suc,
      Events_trigger = (\<lambda>_ _. Suc), Mouse_clearSourceEvents = Suc,
      render_controller_world = Suc,
      broadphase_controller = (\<lambda>_. True),
      collisionStart = (\<lambda>w. [w]), collisionActive = (\<lambda>_. []), collisionEnd = (\<lambda>_. []),
      mousemove = (\<lambda>_. False), mousedown = (\<lambda>_. False), mouseup = (\<lambda>_. False),
      render_options_enabled = (\<lambda>_. True)\<rparr>"

definition plain_factories :: "(nat, unit) factories" where
  "plain_factories =
     \<lparr>Common_extend = (\<lambda>d _. d), defaults_objects = 0,
      render_missing = (\<lambda>_. True), Render_create = Suc, element_appendChild = Suc,
      World_create = Suc, metrics_missing = (\<lambda>_. True), Metrics_create = Suc,
      input_missing = (\<lambda>_. False),
      mouse_missing = (\<lambda>_. True), Mouse_create = Suc,
      mouseConstraint_missing = (\<lambda>_. True), MouseConstraint_create = Suc,
      World_addComposite = Suc, broadphase_missing = (\<lambda>_. True), Grid_create = Suc\<rparr>"

text \<open>
  A store that is a pair table: a list of pairs, each an identifier with the timestamp
  of its last activity. The detector reports one collision, numbered by the length of
  the table; \<^verbatim>\<open>Manager.updatePairs\<close> enters it with the timestamp,
  \<^verbatim>\<open>Manager.removeOldPairs\<close> drops the pairs that have been idle for more than 1000, and
  no other module touches the table.
\<close>

definition tabling :: "((nat \<times> number) list, nat, nat) modules" where
  "tabling =
     \<lparr>Metrics_reset = id, Sleeping_update = id, Body_applyGravityAll = id,
      MouseConstraint_update = id, Body_updateAll = (\<lambda>_ _. id), Constraint_updateAll = id,
      controller_update = id, detector = (\<lambda>_ w. (length w, w)),
      Manager_updatePairs = (\<lambda>c t w. (c, t) # w),
      Manager_removeOldPairs = (\<lambda>t w. filter (\<lambda>p. t - snd p \<le> 1000) w),
      Sleeping_afterCollisions = id, Resolver_preSolveVelocity = id,
      Resolver_solveVelocity = id, Resolver_solvePosition = id,
      Resolver_postSolvePosition = id, Metrics_update = id, Body_resetForcesAll = id,
      Events_trigger = (\<lambda>_ _. id), Mouse_clearSourceEvents = id,
      render_controller_world = id,
      broadphase_controller = (\<lambda>_. True),
      collisionStart = (\<lambda>_. []), collisionActive = (\<lambda>_. []), collisionEnd = (\<lambda>_. []),
      mousemove = (\<lambda>_. False), mousedown = (\<lambda>_. False), mouseup = (\<lambda>_. False),
      render_options_enabled = (\<lambda>_. True)\<rparr>"

text \<open>The default engine at time 2000, with one pair in its table that was last
  active at time 500.\<close>

definition stale_engine :: "(nat \<times> number) list engine" where
  "stale_engine = (let e = defaults [(7, 500)] in e\<lparr>timing := (timing e)\<lparr>timestamp := 2000\<rparr>\<rparr>)"

text \<open>The default engine, and variants of it: with sleeping enabled, disabled, and with
  the timestamp 16.\<close>

definition default_engine :: "nat engine" where
  "default_engine = defaults 0"

definition sleepy_engine :: "nat engine" where
  "sleepy_engine = default_engine\<lparr>enableSleeping := True\<rparr>"

definition disabled_engine :: "nat engine" where
  "disabled_engine = default_engine\<lparr>enabled := False\<rparr>"

definition later_engine :: "nat engine" where
  "later_engine = default_engine\<lparr>timing := (timing default_engine)\<lparr>timestamp := 16\<rparr>\<rparr>"

definition fresh_vars :: run_vars where
  "fresh_vars = \<lparr>counterTimestamp = 0, frameCounter = 0, deltaHistory = []\<rparr>"

text \<open>The closure's variables after eight frames, the oldest of which had the
  shortest raw delta.\<close>

definition full_vars :: run_vars where
  "full_vars = \<lparr>counterTimestamp = 0, frameCounter = 8,
                 deltaHistory = [17, 30, 30, 30, 30, 30, 30, 30]\<rparr>"

section \<open>The calls of a tick and of a frame, in closed form\<close>

lemma fst_note_call [simp]: "fst (note_call c s) = fst s"
  by (simp add: note_call_def)

lemma snd_note_call [simp]: "snd (note_call c s) = snd s @ [c]"
  by (simp add: note_call_def)

lemma snd_invoke [simp]: "snd (invoke c f s) = snd s @ [c]"
  by (simp add: invoke_def)

lemma objects_invoke [simp]: "objects (fst (invoke c f s)) = f (objects (fst s))"
  by (simp add: invoke_def)

lemma same_settings_refl [simp]: "same_settings e e"
  by (simp add: same_settings_def)

lemma same_settings_trans: "same_settings a b \<Longrightarrow> same_settings b c \<Longrightarrow> same_settings a c"
  by (simp add: same_settings_def)

lemma same_settings_invoke [simp]: "same_settings (fst s) (fst (invoke c f s))"
  by (simp add: same_settings_def invoke_def)

lemma same_settings_invoke2: "same_settings e (fst s) \<Longrightarrow> same_settings e (fst (invoke c f s))"
  by (simp add: same_settings_def invoke_def)

declare constraint_loop.simps [simp del] velocity_loop.simps [simp del] position_loop.simps [simp del]

lemma constraint_loop_calls:
  "snd (constraint_loop m i s) =
     snd s @ replicate (nat (constraintIterations (fst s) - i)) ConstraintUpdateAll
   \<and> same_settings (fst s) (fst (constraint_loop m i s))"
proof (induction m i s rule: constraint_loop.induct)
  case (1 m i s)
  show ?case
  proof (cases "i < constraintIterations (fst s)")
    case True
    let ?s = "invoke ConstraintUpdateAll (Constraint_updateAll m) s"
    have n: "nat (constraintIterations (fst s) - i) = Suc (nat (constraintIterations (fst s) - (i + 1)))"
      using True by simp
    have c: "constraintIterations (fst ?s) = constraintIterations (fst s)"
      by (simp add: invoke_def)
    from 1 [OF True] c have
      "snd (constraint_loop m (i + 1) ?s) =
         snd ?s @ replicate (nat (constraintIterations (fst s) - (i + 1))) ConstraintUpdateAll"
      and "same_settings (fst ?s) (fst (constraint_loop m (i + 1) ?s))"
      by simp_all
    then have "snd (constraint_loop m (i + 1) ?s) =
         snd s @ replicate (nat (constraintIterations (fst s) - i)) ConstraintUpdateAll"
      and "same_settings (fst s) (fst (constraint_loop m (i + 1) ?s))"
      using n same_settings_trans [OF same_settings_invoke]
      by (simp_all only: snd_invoke append_assoc append_Cons append_Nil replicate_Suc)
    moreover have "constraint_loop m i s = constraint_loop m (i + 1) ?s"
      using True by (simp add: constraint_loop.simps [of m i s])
    ultimately show ?thesis
      by (simp only:)
  next
    case False
    then show ?thesis by (simp add: constraint_loop.simps [of m i s])
  qed
qed

lemma velocity_loop_calls:
  "snd (velocity_loop m i s) =
     snd s @ replicate (nat (velocityIterations (fst s) - i)) ResolverSolveVelocity
   \<and> same_settings (fst s) (fst (velocity_loop m i s))"
proof (induction m i s rule: velocity_loop.induct)
  case (1 m i s)
  show ?case
  proof (cases "i < velocityIterations (fst s)")
    case True
    let ?s = "invoke ResolverSolveVelocity (Resolver_solveVelocity m) s"
    have n: "nat (velocityIterations (fst s) - i) = Suc (nat (velocityIterations (fst s) - (i + 1)))"
      using True by simp
    have c: "velocityIterations (fst ?s) = velocityIterations (fst s)"
      by (simp add: invoke_def)
    from 1 [OF True] c have
      "snd (velocity_loop m (i + 1) ?s) =
         snd ?s @ replicate (nat (velocityIterations (fst s) - (i + 1))) ResolverSolveVelocity"
      and "same_settings (fst ?s) (fst (velocity_loop m (i + 1) ?s))"
      by simp_all
    then have "snd (velocity_loop m (i + 1) ?s) =
         snd s @ replicate (nat (velocityIterations (fst s) - i)) ResolverSolveVelocity"
      and "same_settings (fst s) (fst (velocity_loop m (i + 1) ?s))"
      using n same_settings_trans [OF same_settings_invoke]
      by (simp_all only: snd_invoke append_assoc append_Cons append_Nil replicate_Suc)
    moreover have "velocity_loop m i s = velocity_loop m (i + 1) ?s"
      using True by (simp add: velocity_loop.simps [of m i s])
    ultimately show ?thesis
      by (simp only:)
  next
    case False
    then show ?thesis by (simp add: velocity_loop.simps [of m i s])
  qed
qed

lemma position_loop_calls:
  "snd (position_loop m i s) =
     snd s @ replicate (nat (positionIterations (fst s) - i)) ResolverSolvePosition
   \<and> same_settings (fst s) (fst (position_loop m i s))"
proof (induction m i s rule: position_loop.induct)
  case (1 m i s)
  show ?case
  proof (cases "i < positionIterations (fst s)")
    case True
    let ?s = "invoke ResolverSolvePosition (Resolver_solvePosition m) s"
    have n: "nat (positionIterations (fst s) - i) = Suc (nat (positionIterations (fst s) - (i + 1)))"
      using True by simp
    have c: "positionIterations (fst ?s) = positionIterations (fst s)"
      by (simp add: invoke_def)
    from 1 [OF True] c have
      "snd (position_loop m (i + 1) ?s) =
         snd ?s @ replicate (nat (positionIterations (fst s) - (i + 1))) ResolverSolvePosition"
      and "same_settings (fst ?s) (fst (position_loop m (i + 1) ?s))"
      by simp_all
    then have "snd (position_loop m (i + 1) ?s) =
         snd s @ replicate (nat (positionIterations (fst s) - i)) ResolverSolvePosition"
      and "same_settings (fst s) (fst (position_loop m (i + 1) ?s))"
      using n same_settings_trans [OF same_settings_invoke]
      by (simp_all only: snd_invoke append_assoc append_Cons append_Nil replicate_Suc)
    moreover have "position_loop m i s = position_loop m (i + 1) ?s"
      using True by (simp add: position_loop.simps [of m i s])
    ultimately show ?thesis
      by (simp only:)
  next
    case False
    then show ?thesis by (simp add: position_loop.simps [of m i s])
  qed
qed

lemma Engine_update_steps:
  fixes m :: "('w, 'c, 'p) modules" and s :: "('w, 'c, 'p) state"
  shows "\<exists>b c. snd (Engine_update m d k s) = snd s @ update_calls (fst s) d k b c
     \<and> same_settings (fst s) (fst (Engine_update m d k s))"
proof -
  define s1 where "s1 = note_call (EngineUpdate d k) s"
  define s2 where "s2 = invoke MetricsReset (Metrics_reset m) s1"
  define s3 where "s3 = (if enableSleeping (fst s2) then invoke SleepingUpdate (Sleeping_update m) s2 else s2)"
  define s4 where "s4 = invoke BodyApplyGravityAll (Body_applyGravityAll m) s3"
  define s5 where "s5 = invoke MouseConstraintUpdate (MouseConstraint_update m) s4"
  define s6 where "s6 = invoke (BodyUpdateAll (d * timeScale (fst s5)) k)
                (Body_updateAll m (d * timeScale (fst s5)) k) s5"
  define s7 where "s7 = constraint_loop m 0 s6"
  define sb where "sb = (if broadphase_controller m (objects (fst s7))
             then (invoke BroadphaseControllerUpdate (controller_update m) s7, InstancePairsList)
             else (s7, WorldBodies))"
  define cw where "cw = detector m (snd sb) (objects (fst (fst sb)))"
  define s8 where "s8 = invoke (BroadphaseDetector (snd sb) (fst cw)) (\<lambda>_. snd cw) (fst sb)"
  define ts where "ts = timestamp (timing (fst s8))"
  define s9 where "s9 = invoke (ManagerUpdatePairs (fst cw) ts) (Manager_updatePairs m (fst cw) ts) s8"
  define s10 where "s10 = invoke (ManagerRemoveOldPairs ts) (Manager_removeOldPairs m ts) s9"
  define s11 where "s11 = (if enableSleeping (fst s10)
               then invoke SleepingAfterCollisions (Sleeping_afterCollisions m) s10 else s10)"
  define s12 where "s12 = invoke ResolverPreSolveVelocity (Resolver_preSolveVelocity m) s11"
  define s13 where "s13 = velocity_loop m 0 s12"
  define s14 where "s14 = position_loop m 0 s13"
  define s15 where "s15 = invoke ResolverPostSolvePosition (Resolver_postSolvePosition m) s14"
  define s16 where "s16 = invoke MetricsUpdate (Metrics_update m) s15"
  define s17 where "s17 = invoke BodyResetForcesAll (Body_resetForcesAll m) s16"
  have E: "Engine_update m d k s = note_call EngineUpdateReturn s17"
    unfolding Engine_update_def Let_def case_prod_beta s17_def s16_def s15_def s14_def s13_def
      s12_def s11_def s10_def s9_def ts_def s8_def cw_def sb_def s7_def s6_def s5_def s4_def
      s3_def s2_def s1_def
    by (rule refl)
  let ?e = "fst s"
  let ?B = "broadphase_controller m (objects (fst s7))"
  have 1: "same_settings ?e (fst s1)" "snd s1 = snd s @ [EngineUpdate d k]"
    by (simp_all add: s1_def)
  have 2: "same_settings ?e (fst s2)" "snd s2 = snd s1 @ [MetricsReset]"
    using 1 by (simp_all add: s2_def same_settings_def invoke_def)
  have 3: "same_settings ?e (fst s3)"
    "snd s3 = snd s2 @ (if enableSleeping ?e then [SleepingUpdate] else [])"
    using 2 by (simp_all add: s3_def same_settings_def invoke_def)
  have 4: "same_settings ?e (fst s4)" "snd s4 = snd s3 @ [BodyApplyGravityAll]"
    using 3 by (simp_all add: s4_def same_settings_def invoke_def)
  have 5: "same_settings ?e (fst s5)" "snd s5 = snd s4 @ [MouseConstraintUpdate]"
    using 4 by (simp_all add: s5_def same_settings_def invoke_def)
  have 6: "same_settings ?e (fst s6)" "snd s6 = snd s5 @ [BodyUpdateAll (d * timeScale ?e) k]"
    using 5 by (simp_all add: s6_def same_settings_def invoke_def)
  have 7: "same_settings ?e (fst s7)"
    "snd s7 = snd s6 @ replicate (nat (constraintIterations ?e)) ConstraintUpdateAll"
    using 6 constraint_loop_calls [of m 0 s6] by (simp_all add: s7_def same_settings_def)
  have b: "same_settings ?e (fst (fst sb))"
    "snd (fst sb) = snd s7 @ (if ?B then [BroadphaseControllerUpdate] else [])"
    "snd sb = (if ?B then InstancePairsList else WorldBodies)"
    using 7 by (simp_all add: sb_def same_settings_def invoke_def)
  have 8: "same_settings ?e (fst s8)"
    "snd s8 = snd (fst sb) @ [BroadphaseDetector (if ?B then InstancePairsList else WorldBodies) (fst cw)]"
    using b by (simp_all add: s8_def same_settings_def invoke_def)
  have t: "ts = timestamp (timing ?e)"
    using 8 by (simp add: ts_def same_settings_def)
  have 9: "same_settings ?e (fst s9)"
    "snd s9 = snd s8 @ [ManagerUpdatePairs (fst cw) (timestamp (timing ?e))]"
    using 8 t by (simp_all add: s9_def same_settings_def invoke_def)
  have 10: "same_settings ?e (fst s10)"
    "snd s10 = snd s9 @ [ManagerRemoveOldPairs (timestamp (timing ?e))]"
    using 9 t by (simp_all add: s10_def same_settings_def invoke_def)
  have 11: "same_settings ?e (fst s11)"
    "snd s11 = snd s10 @ (if enableSleeping ?e then [SleepingAfterCollisions] else [])"
    using 10 by (simp_all add: s11_def same_settings_def invoke_def)
  have 12: "same_settings ?e (fst s12)" "snd s12 = snd s11 @ [ResolverPreSolveVelocity]"
    using 11 by (simp_all add: s12_def same_settings_def invoke_def)
  have 13: "same_settings ?e (fst s13)"
    "snd s13 = snd s12 @ replicate (nat (velocityIterations ?e)) ResolverSolveVelocity"
    using 12 velocity_loop_calls [of m 0 s12] by (simp_all add: s13_def same_settings_def)
  have 14: "same_settings ?e (fst s14)"
    "snd s14 = snd s13 @ replicate (nat (positionIterations ?e)) ResolverSolvePosition"
    using 13 position_loop_calls [of m 0 s13] by (simp_all add: s14_def same_settings_def)
  have 15: "same_settings ?e (fst s15)" "snd s15 = snd s14 @ [ResolverPostSolvePosition]"
    using 14 by (simp_all add: s15_def same_settings_def invoke_def)
  have 16: "same_settings ?e (fst s16)" "snd s16 = snd s15 @ [MetricsUpdate]"
    using 15 by (simp_all add: s16_def same_settings_def invoke_def)
  have 17: "same_settings ?e (fst s17)" "snd s17 = snd s16 @ [BodyResetForcesAll]"
    using 16 by (simp_all add: s17_def same_settings_def invoke_def)
  have "snd (Engine_update m d k s) = snd s @ update_calls ?e d k ?B (fst cw)"
    unfolding E update_calls_def
    by (simp only: snd_note_call 1(2) 2(2) 3(2) 4(2) 5(2) 6(2) 7(2) b(2) 8(2) 9(2) 10(2) 11(2)
        12(2) 13(2) 14(2) 15(2) 16(2) 17(2) append_assoc append_Cons append_Nil)
  moreover have "same_settings ?e (fst (Engine_update m d k s))"
    unfolding E using 17(1) by simp
  ultimately show ?thesis by blast
qed

lemma triggerCollisionEvents_calls:
  "\<exists>ct. snd (triggerCollisionEvents m s) = snd s @ ct \<and> (\<forall>x\<in>set ct. is_collision_trigger x)
     \<and> same_settings (fst s) (fst (triggerCollisionEvents m s))"
proof -
  define s1 where "s1 = (if length (collisionStart m (objects (fst s))) > 0
               then invoke (EventsTrigger ''collisionStart'' (PairsEvent (collisionStart m (objects (fst s)))))
                      (Events_trigger m ''collisionStart'' (PairsEvent (collisionStart m (objects (fst s))))) s
               else s)"
  define s2 where "s2 = (if length (collisionActive m (objects (fst s1))) > 0
               then invoke (EventsTrigger ''collisionActive'' (PairsEvent (collisionActive m (objects (fst s1)))))
                      (Events_trigger m ''collisionActive'' (PairsEvent (collisionActive m (objects (fst s1))))) s1
               else s1)"
  define s3 where "s3 = (if length (collisionEnd m (objects (fst s2))) > 0
               then invoke (EventsTrigger ''collisionEnd'' (PairsEvent (collisionEnd m (objects (fst s2)))))
                      (Events_trigger m ''collisionEnd'' (PairsEvent (collisionEnd m (objects (fst s2))))) s2
               else s2)"
  have E: "triggerCollisionEvents m s = s3"
    unfolding triggerCollisionEvents_def Let_def s3_def s2_def s1_def by (rule refl)
  have 1: "\<exists>ct. snd s1 = snd s @ ct \<and> (\<forall>x\<in>set ct. is_collision_trigger x)"
    "same_settings (fst s) (fst s1)"
    by (simp_all add: s1_def same_settings_def invoke_def)
  have 2: "\<exists>ct. snd s2 = snd s1 @ ct \<and> (\<forall>x\<in>set ct. is_collision_trigger x)"
    "same_settings (fst s) (fst s2)"
    using 1(2) by (simp_all add: s2_def same_settings_def invoke_def)
  have 3: "\<exists>ct. snd s3 = snd s2 @ ct \<and> (\<forall>x\<in>set ct. is_collision_trigger x)"
    "same_settings (fst s) (fst s3)"
    using 2(2) by (simp_all add: s3_def same_settings_def invoke_def)
  from 1(1) obtain c1 where c1: "snd s1 = snd s @ c1" "\<forall>x\<in>set c1. is_collision_trigger x"
    by blast
  from 2(1) obtain c2 where c2: "snd s2 = snd s1 @ c2" "\<forall>x\<in>set c2. is_collision_trigger x"
    by blast
  from 3(1) obtain c3 where c3: "snd s3 = snd s2 @ c3" "\<forall>x\<in>set c3. is_collision_trigger x"
    by blast
  have "snd s3 = snd s @ (c1 @ c2 @ c3)"
    using c1(1) c2(1) c3(1) by simp
  moreover have "\<forall>x\<in>set (c1 @ c2 @ c3). is_collision_trigger x"
    using c1(2) c2(2) c3(2) by auto
  ultimately show ?thesis
    using 3(2) unfolding E by blast
qed

lemma triggerMouseEvents_calls:
  "\<exists>mt. snd (triggerMouseEvents m s) = snd s @ mt @ [MouseClearSourceEvents]
     \<and> (\<forall>x\<in>set mt. is_trigger x \<and> \<not> is_collision_trigger x)
     \<and> same_settings (fst s) (fst (triggerMouseEvents m s))"
proof -
  define s1 where "s1 = (if mousemove m (objects (fst s))
               then invoke (EventsTrigger ''mousemove'' MouseEvent)
                      (Events_trigger m ''mousemove'' MouseEvent) s else s)"
  define s2 where "s2 = (if mousedown m (objects (fst s1))
               then invoke (EventsTrigger ''mousedown'' MouseEvent)
                      (Events_trigger m ''mousedown'' MouseEvent) s1 else s1)"
  define s3 where "s3 = (if mouseup m (objects (fst s2))
               then invoke (EventsTrigger ''mouseup'' MouseEvent)
                      (Events_trigger m ''mouseup'' MouseEvent) s2 else s2)"
  have E: "triggerMouseEvents m s = invoke MouseClearSourceEvents (Mouse_clearSourceEvents m) s3"
    unfolding triggerMouseEvents_def Let_def s3_def s2_def s1_def by (rule refl)
  have 1: "\<exists>mt. snd s1 = snd s @ mt \<and> (\<forall>x\<in>set mt. is_trigger x \<and> \<not> is_collision_trigger x)"
    "same_settings (fst s) (fst s1)"
    by (simp_all add: s1_def same_settings_def invoke_def)
  have 2: "\<exists>mt. snd s2 = snd s1 @ mt \<and> (\<forall>x\<in>set mt. is_trigger x \<and> \<not> is_collision_trigger x)"
    "same_settings (fst s) (fst s2)"
    using 1(2) by (simp_all add: s2_def same_settings_def invoke_def)
  have 3: "\<exists>mt. snd s3 = snd s2 @ mt \<and> (\<forall>x\<in>set mt. is_trigger x \<and> \<not> is_collision_trigger x)"
    "same_settings (fst s) (fst s3)"
    using 2(2) by (simp_all add: s3_def same_settings_def invoke_def)
  from 1(1) obtain c1 where c1: "snd s1 = snd s @ c1"
    "\<forall>x\<in>set c1. is_trigger x \<and> \<not> is_collision_trigger x"
    by blast
  from 2(1) obtain c2 where c2: "snd s2 = snd s1 @ c2"
    "\<forall>x\<in>set c2. is_trigger x \<and> \<not> is_collision_trigger x"
    by blast
  from 3(1) obtain c3 where c3: "snd s3 = snd s2 @ c3"
    "\<forall>x\<in>set c3. is_trigger x \<and> \<not> is_collision_trigger x"
    by blast
  have "snd s3 = snd s @ (c1 @ c2 @ c3)"
    using c1(1) c2(1) c3(1) by simp
  moreover have "\<forall>x\<in>set (c1 @ c2 @ c3). is_trigger x \<and> \<not> is_collision_trigger x"
    using c1(2) c2(2) c3(2) by auto
  moreover have "same_settings (fst s) (fst (invoke MouseClearSourceEvents (Mouse_clearSourceEvents m) s3))"
    using 3(2) by (simp add: same_settings_def invoke_def)
  ultimately show ?thesis unfolding E
    by (metis append_assoc snd_invoke)
qed

lemma update_calls_cong:
  "enableSleeping e' = enableSleeping e \<Longrightarrow> timeScale e' = timeScale e \<Longrightarrow>
   constraintIterations e' = constraintIterations e \<Longrightarrow>
   velocityIterations e' = velocityIterations e \<Longrightarrow>
   positionIterations e' = positionIterations e \<Longrightarrow>
   timestamp (timing e') = timestamp (timing e) \<Longrightarrow>
   update_calls e' d k b c = update_calls e d k b c"
  by (simp add: update_calls_def)

lemma last_n_drop: "last_n n xs = drop (length xs - n) xs"
  by (simp add: last_n_def rev_take)

lemma clamp_code:
  "(if (if x < lo then lo else x) > hi then hi else (if x < lo then lo else x)) = clamp lo hi x"
  by (simp add: clamp_def min_def max_def)

lemma render_disabled:
  "\<not> enabled (fst s) \<Longrightarrow> render m t (vars, s) = (vars, note_call RequestAnimationFrame s)"
  by (simp add: render_def Let_def)

lemma render_steps:
  fixes m :: "('w, 'c, 'p) modules" and s :: "('w, 'c, 'p) state"
    and vars :: run_vars and t :: "number option"
  assumes en: "enabled (fst s)"
  defines "D \<equiv> frame_delta vars (fst s) t"
  defines "K \<equiv> js_divide D (delta (timing (fst s)))"
  defines "ev \<equiv> TimestampEvent (frame_time t)"
  shows "\<exists>b c ct mt rw.
     snd (snd (render m t (vars, s))) =
       snd s @ [RequestAnimationFrame, EventsTrigger ''beforeTick'' ev,
                EventsTrigger ''tick beforeUpdate'' ev]
        @ update_calls ((fst s)\<lparr>timing := (timing (fst s))\<lparr>timestamp := frame_time t\<rparr>\<rparr>) D K b c
        @ ct @ mt
        @ [MouseClearSourceEvents, EventsTrigger ''afterUpdate beforeRender'' ev]
        @ rw @ [EventsTrigger ''afterTick afterRender'' ev]
     \<and> (\<forall>x\<in>set ct. is_collision_trigger x)
     \<and> (\<forall>x\<in>set mt. is_trigger x \<and> \<not> is_collision_trigger x)
     \<and> (\<forall>x\<in>set rw. x = RenderControllerWorld)"
    and "deltaHistory (fst (render m t (vars, s))) = recent_deltas vars (fst s) t"
    and "enabled (fst (snd (render m t (vars, s))))"
    and "timestamp (timing (fst (snd (render m t (vars, s))))) = frame_time t"
    and "delta (timing (fst (snd (render m t (vars, s))))) = D"
    and "correction (timing (fst (snd (render m t (vars, s))))) = K"
proof -
  define r1 where "r1 = note_call RequestAnimationFrame s"
  define ts where "ts = (case t of None \<Rightarrow> 0 | Some x \<Rightarrow> x)"
  define r2 where "r2 = invoke (EventsTrigger ''beforeTick'' (TimestampEvent ts))
       (Events_trigger m ''beforeTick'' (TimestampEvent ts)) r1"
  define tm where "tm = timing (fst r2)"
  define d0 where "d0 = (if ts - timestamp tm = 0 then u_delta else ts - timestamp tm)"
  define h0 where "h0 = deltaHistory vars @ [d0]"
  define h where "h = drop (length h0 - u_deltaSampleSize) h0"
  define d1 where "d1 = min_list h"
  define d2 where "d2 = (if d1 < deltaMin tm then deltaMin tm else d1)"
  define d3 where "d3 = (if d2 > deltaMax tm then deltaMax tm else d2)"
  define k where "k = js_divide d3 (delta tm)"
  define tm1 where "tm1 = tm\<lparr>timestamp := ts, correction := k, delta := d3\<rparr>"
  define fc where "fc = frameCounter vars + 1"
  define tr where "tr = (if ts - counterTimestamp vars \<ge> 1000
                  then (tm1\<lparr>fps := fc * ((ts - counterTimestamp vars) / 1000)\<rparr>, ts, 0)
                  else (tm1, counterTimestamp vars, fc))"
  define r3 where "r3 = ((fst r2)\<lparr>timing := fst tr\<rparr>, snd r2)"
  define r4 where "r4 = invoke (EventsTrigger ''tick beforeUpdate'' (TimestampEvent ts))
                     (Events_trigger m ''tick beforeUpdate'' (TimestampEvent ts)) r3"
  define r5 where "r5 = Engine_update m d3 k r4"
  define r6 where "r6 = triggerCollisionEvents m r5"
  define r7 where "r7 = triggerMouseEvents m r6"
  define r8 where "r8 = invoke (EventsTrigger ''afterUpdate beforeRender'' (TimestampEvent ts))
                     (Events_trigger m ''afterUpdate beforeRender'' (TimestampEvent ts)) r7"
  define r9 where "r9 = (if render_options_enabled m (objects (fst r8))
                    then invoke RenderControllerWorld (render_controller_world m) r8 else r8)"
  define r10 where "r10 = invoke (EventsTrigger ''afterTick afterRender'' (TimestampEvent ts))
                     (Events_trigger m ''afterTick afterRender'' (TimestampEvent ts)) r9"
  have en1: "enabled (fst (note_call RequestAnimationFrame s))"
    using en by simp
  have E: "render m t (vars, s) =
      (\<lparr>counterTimestamp = fst (snd tr), frameCounter = snd (snd tr), deltaHistory = h\<rparr>, r10)"
    unfolding render_def Let_def case_prod_beta r10_def r9_def r8_def r7_def r6_def r5_def r4_def
      r3_def tr_def fc_def tm1_def k_def d3_def d2_def d1_def h_def h0_def d0_def tm_def r2_def
      ts_def r1_def fst_conv snd_conv
    by (simp only: en1 not_True_eq_False if_False)
  have ts: "ts = frame_time t"
    by (simp add: ts_def frame_time_def)
  have tm: "tm = timing (fst s)"
    by (simp add: tm_def r2_def r1_def invoke_def)
  have d0: "d0 = raw_delta (fst s) t"
    by (simp add: d0_def raw_delta_def ts tm)
  have h: "h = recent_deltas vars (fst s) t"
    by (simp add: h_def h0_def recent_deltas_def last_n_drop d0 u_deltaSampleSize_def)
  have hne: "h \<noteq> []"
    by (simp add: h_def h0_def u_deltaSampleSize_def)
  have d1: "d1 = Min (set (recent_deltas vars (fst s) t))"
    using hne min_list_Min [of h] by (simp add: d1_def h)
  have d3: "d3 = D"
    unfolding d3_def d2_def clamp_code by (simp add: D_def frame_delta_def d1 tm)
  have k: "k = K"
    by (simp add: k_def K_def d3 tm)
  have tr: "timestamp (fst tr) = ts" "delta (fst tr) = D" "correction (fst tr) = K"
    by (simp_all add: tr_def tm1_def d3 k)
  have 2: "same_settings (fst s) (fst r2)" "snd r2 = snd s @ [RequestAnimationFrame, EventsTrigger ''beforeTick'' ev]"
    by (simp_all add: r2_def r1_def same_settings_def invoke_def ev_def ts)
  have 4: "snd r4 = snd r2 @ [EventsTrigger ''tick beforeUpdate'' ev]"
    "enabled (fst r4)" "timing (fst r4) = fst tr"
    "update_calls (fst r4) D K = update_calls ((fst s)\<lparr>timing := (timing (fst s))\<lparr>timestamp := frame_time t\<rparr>\<rparr>) D K"
    using 2(1) en tr(1)
    by (auto simp: r4_def r3_def invoke_def ev_def ts same_settings_def fun_eq_iff
        intro!: update_calls_cong)
  obtain b c where 5: "snd r5 = snd r4 @ update_calls (fst r4) D K b c"
    "same_settings (fst r4) (fst r5)"
    using Engine_update_steps [of m d3 k r4] unfolding r5_def d3 k by blast
  obtain ct where 6: "snd r6 = snd r5 @ ct" "\<forall>x\<in>set ct. is_collision_trigger x"
    "same_settings (fst r5) (fst r6)"
    using triggerCollisionEvents_calls [of m r5] unfolding r6_def by blast
  obtain mt where 7: "snd r7 = snd r6 @ mt @ [MouseClearSourceEvents]"
    "\<forall>x\<in>set mt. is_trigger x \<and> \<not> is_collision_trigger x"
    "same_settings (fst r6) (fst r7)"
    using triggerMouseEvents_calls [of m r6] unfolding r7_def by blast
  have 8: "snd r8 = snd r7 @ [EventsTrigger ''afterUpdate beforeRender'' ev]"
    "same_settings (fst r7) (fst r8)"
    by (simp_all add: r8_def ev_def ts)
  obtain rw where 9: "snd r9 = snd r8 @ rw" "\<forall>x\<in>set rw. x = RenderControllerWorld"
    "same_settings (fst r8) (fst r9)"
    by (cases "render_options_enabled m (objects (fst r8))") (simp_all add: r9_def)
  have 10: "snd r10 = snd r9 @ [EventsTrigger ''afterTick afterRender'' ev]"
    "same_settings (fst r9) (fst r10)"
    by (simp_all add: r10_def ev_def ts)
  have same: "same_settings (fst r4) (fst r10)"
    using 5(2) 6(3) 7(3) 8(2) 9(3) 10(2) by (simp add: same_settings_def)
  have "snd r10 = snd s @ [RequestAnimationFrame, EventsTrigger ''beforeTick'' ev,
                EventsTrigger ''tick beforeUpdate'' ev]
        @ update_calls ((fst s)\<lparr>timing := (timing (fst s))\<lparr>timestamp := frame_time t\<rparr>\<rparr>) D K b c
        @ ct @ mt
        @ [MouseClearSourceEvents, EventsTrigger ''afterUpdate beforeRender'' ev]
        @ rw @ [EventsTrigger ''afterTick afterRender'' ev]"
    by (simp only: 10(1) 9(1) 8(1) 7(1) 6(1) 5(1) 4(1) 4(4) 2(2) append_assoc append_Cons append_Nil)
  with 6(2) 7(2) 9(2) show "\<exists>b c ct mt rw.
     snd (snd (render m t (vars, s))) =
       snd s @ [RequestAnimationFrame, EventsTrigger ''beforeTick'' ev,
                EventsTrigger ''tick beforeUpdate'' ev]
        @ update_calls ((fst s)\<lparr>timing := (timing (fst s))\<lparr>timestamp := frame_time t\<rparr>\<rparr>) D K b c
        @ ct @ mt
        @ [MouseClearSourceEvents, EventsTrigger ''afterUpdate beforeRender'' ev]
        @ rw @ [EventsTrigger ''afterTick afterRender'' ev]
     \<and> (\<forall>x\<in>set ct. is_collision_trigger x)
     \<and> (\<forall>x\<in>set mt. is_trigger x \<and> \<not> is_collision_trigger x)
     \<and> (\<forall>x\<in>set rw. x = RenderControllerWorld)"
    unfolding E snd_conv by blast
  show "deltaHistory (fst (render m t (vars, s))) = recent_deltas vars (fst s) t"
    unfolding E by (simp add: h)
  show "enabled (fst (snd (render m t (vars, s))))"
    unfolding E using same 4(2) by (simp add: same_settings_def)
  show "timestamp (timing (fst (snd (render m t (vars, s))))) = frame_time t"
    unfolding E using same 4(3) tr(1) ts by (simp add: same_settings_def)
  show "delta (timing (fst (snd (render m t (vars, s))))) = D"
    unfolding E using same 4(3) tr(2) by (simp add: same_settings_def)
  show "correction (timing (fst (snd (render m t (vars, s))))) = K"
    unfolding E using same 4(3) tr(3) by (simp add: same_settings_def)
qed

section \<open>Order in a list of calls\<close>

lemma precedes_Nil [simp]: "precedes P Q []"
  by (simp add: precedes_def)

lemma precedes_append:
  "precedes P Q (xs @ ys) \<longleftrightarrow>
     precedes P Q xs \<and> precedes P Q ys \<and> (\<forall>x\<in>set xs. \<forall>y\<in>set ys. \<not> (Q x \<and> P y))"
proof (intro iffI conjI ballI)
  assume a: "precedes P Q (xs @ ys)"
  show "precedes P Q xs"
    unfolding precedes_def
  proof (intro allI impI)
    fix i j assume "i < length xs \<and> j < length xs \<and> P (xs ! i) \<and> Q (xs ! j)"
    then show "i < j"
      using a [unfolded precedes_def, rule_format, of i j] by (simp add: nth_append)
  qed
  show "precedes P Q ys"
    unfolding precedes_def
  proof (intro allI impI)
    fix i j assume "i < length ys \<and> j < length ys \<and> P (ys ! i) \<and> Q (ys ! j)"
    then show "i < j"
      using a [unfolded precedes_def, rule_format, of "length xs + i" "length xs + j"]
      by (simp add: nth_append)
  qed
  fix x y assume "x \<in> set xs" "y \<in> set ys"
  then obtain i j where "i < length xs" "xs ! i = x" "j < length ys" "ys ! j = y"
    by (auto simp: in_set_conv_nth)
  then show "\<not> (Q x \<and> P y)"
    using a [unfolded precedes_def, rule_format, of "length xs + j" i]
    by (auto simp: nth_append)
next
  assume b: "precedes P Q xs \<and> precedes P Q ys \<and> (\<forall>x\<in>set xs. \<forall>y\<in>set ys. \<not> (Q x \<and> P y))"
  show "precedes P Q (xs @ ys)"
    unfolding precedes_def
  proof (intro allI impI)
    fix i j
    assume c: "i < length (xs @ ys) \<and> j < length (xs @ ys) \<and> P ((xs @ ys) ! i) \<and> Q ((xs @ ys) ! j)"
    consider "i < length xs" "j < length xs" | "i < length xs" "\<not> j < length xs"
      | "\<not> i < length xs" "j < length xs" | "\<not> i < length xs" "\<not> j < length xs"
      by blast
    then show "i < j"
    proof cases
      case 1
      from b have "precedes P Q xs" by simp
      from this [unfolded precedes_def, rule_format, of i j] c 1 show ?thesis
        by (simp add: nth_append)
    next
      case 2
      then show ?thesis by simp
    next
      case 3
      with c have "Q (xs ! j)" "P (ys ! (i - length xs))"
        by (simp_all add: nth_append)
      moreover have "i - length xs < length ys"
        using c 3 by auto
      moreover have "xs ! j \<in> set xs"
        using 3 by simp
      moreover have "ys ! (i - length xs) \<in> set ys"
        using \<open>i - length xs < length ys\<close> by simp
      moreover from b have "\<forall>x\<in>set xs. \<forall>y\<in>set ys. \<not> (Q x \<and> P y)" by simp
      ultimately have False by blast
      then show ?thesis ..
    next
      case 4
      with c have "P (ys ! (i - length xs))" "Q (ys ! (j - length xs))"
        by (simp_all add: nth_append)
      moreover have "i - length xs < length ys" "j - length xs < length ys"
        using c 4 by auto
      ultimately have *: "P (ys ! (i - length xs))" "Q (ys ! (j - length xs))"
        "i - length xs < length ys" "j - length xs < length ys"
        by blast+
      from b have "precedes P Q ys" by simp
      from this [unfolded precedes_def, rule_format, of "i - length xs" "j - length xs"] *
      have "i - length xs < j - length xs"
        by simp
      then show ?thesis by simp
    qed
  qed
qed

lemma precedes_single [simp]: "precedes P Q [x] \<longleftrightarrow> \<not> (P x \<and> Q x)"
proof
  assume a: "precedes P Q [x]"
  show "\<not> (P x \<and> Q x)"
    using a [unfolded precedes_def, rule_format, of 0 0] by auto
next
  assume "\<not> (P x \<and> Q x)"
  then show "precedes P Q [x]"
    by (auto simp: precedes_def)
qed

lemma precedes_Cons:
  "precedes P Q (x # xs) \<longleftrightarrow>
     \<not> (P x \<and> Q x) \<and> precedes P Q xs \<and> (\<forall>y\<in>set xs. \<not> (Q x \<and> P y))"
  using precedes_append [of P Q "[x]" xs] by simp

lemma precedes_replicate [simp]: "precedes P Q (replicate n x) \<longleftrightarrow> n = 0 \<or> \<not> (P x \<and> Q x)"
  by (induction n) (auto simp: precedes_Cons)

lemma preceded_by_appendI:
  "x \<in> set xs \<Longrightarrow> \<forall>y\<in>set xs. \<not> Q y \<Longrightarrow> preceded_by x Q (xs @ ys)"
  unfolding preceded_by_def
proof (intro allI impI)
  fix j assume x: "x \<in> set xs" and n: "\<forall>y\<in>set xs. \<not> Q y"
    and j: "j < length (xs @ ys) \<and> Q ((xs @ ys) ! j)"
  have "\<not> j < length xs"
    using n j by (auto simp: nth_append)
  then show "x \<in> set (take j (xs @ ys))"
    using x by simp
qed

lemma phases_append [simp]: "phases (xs @ ys) = phases xs @ phases ys"
  by (simp add: phases_def map_filter_def)

lemma phases_Nil [simp]: "phases [] = []"
  by (simp add: phases_def)

lemma phases_Cons [simp]:
  "phases (x # xs) = (case phase_of x of None \<Rightarrow> phases xs | Some p \<Rightarrow> p # phases xs)"
  by (simp add: phases_def split: option.splits)

lemma phases_replicate [simp]:
  "phases (replicate n x) = (case phase_of x of None \<Rightarrow> [] | Some p \<Rightarrow> replicate n p)"
  by (induction n) (auto split: option.splits)

section \<open>The order of the calls in a tick\<close>

lemma tick_calls_closed: "\<exists>b c. tick_calls m d k e = update_calls e d k b c"
  using Engine_update_steps [of m d k "(e, [])"] by (auto simp: tick_calls_def)

lemma default_tick:
  "tick_calls counting 16 (Some 1) default_engine =
     [EngineUpdate 16 (Some 1), MetricsReset, BodyApplyGravityAll, MouseConstraintUpdate,
      BodyUpdateAll 16 (Some 1), ConstraintUpdateAll, BroadphaseControllerUpdate,
      BroadphaseDetector InstancePairsList 6, ManagerUpdatePairs 6 0, ManagerRemoveOldPairs 0,
      ResolverPreSolveVelocity,
      ResolverSolveVelocity, ResolverSolveVelocity, ResolverSolveVelocity, ResolverSolveVelocity,
      ResolverSolvePosition, ResolverSolvePosition, ResolverSolvePosition, ResolverSolvePosition,
      ResolverSolvePosition, ResolverSolvePosition,
      ResolverPostSolvePosition, MetricsUpdate, BodyResetForcesAll, EngineUpdateReturn]"
  by code_simp

lemma count_list_replicate [simp]: "count_list (replicate n x) y = (if x = y then n else 0)"
  by (induction n) auto

lemma phases_update_calls:
  "phases (update_calls e d k b c) =
     (if b then [Grid] else []) @ [Detect, PairMerge, PairMerge]
     @ (if enableSleeping e then [SleepWake] else [])
     @ VelocitySolve # replicate (nat (velocityIterations e)) VelocitySolve
     @ replicate (nat (positionIterations e)) PositionSolve @ [PositionSolve, Metrics]"
  by (simp add: update_calls_def)

lemma sorted_phases_update_calls: "sorted (map phase_rank (phases (update_calls e d k b c)))"
  by (auto simp: phases_update_calls sorted_append)

lemma integrator_update_calls:
  "length (filter is_integrator (update_calls e d k b c)) = 1"
  "precedes is_integrator (\<lambda>x. phase_of x \<noteq> None) (update_calls e d k b c)"
  "\<not> precedes is_resolver is_integrator (update_calls e d k b c)"
  by (auto simp: update_calls_def precedes_append precedes_Cons is_resolver_def)

text \<open>
  Claim C1, as amended. In every tick the calls of \<^verbatim>\<open>Engine.update\<close> that belong to the
  phases stand in the order grid update, narrow-phase detection, pair manager, wake check,
  velocity solve, position solve, metrics update: the ranks of their phases never
  decrease along the list of calls. Detection, pair manager, velocity solve, position
  solve and metrics update all take place, and the wake check takes place exactly when
  sleeping is enabled. The integrator \<^verbatim>\<open>Body.updateAll\<close> is called once, and it is called
  before every call of every phase, the grid update included; it is not called after the
  resolver.
\<close>

theorem Engine_update_phase_order:
  "sorted (map phase_rank (phases (tick_calls m d k e)))
   \<and> {Detect, PairMerge, VelocitySolve, PositionSolve, Metrics} \<subseteq> set (phases (tick_calls m d k e))
   \<and> (SleepWake \<in> set (phases (tick_calls m d k e)) \<longleftrightarrow> enableSleeping e)
   \<and> length (filter is_integrator (tick_calls m d k e)) = 1
   \<and> precedes is_integrator (\<lambda>x. phase_of x \<noteq> None) (tick_calls m d k e)"
proof -
  obtain b c where "tick_calls m d k e = update_calls e d k b c"
    using tick_calls_closed [of m d k e] by blast
  then show ?thesis
    using sorted_phases_update_calls [of e d k b c] integrator_update_calls(1,2) [of e d k b c]
    by (simp add: phases_update_calls)
qed

text \<open>
  Claim C1, at a concrete tick: the default engine with sleeping enabled, \<open>delta = 16\<close>,
  \<open>correction = 1\<close>. The integrator stands at index 5 of the calls (counted from 0)
  and the grid update at index 7.
\<close>

theorem Engine_update_phase_order_witness:
  "sorted (map phase_rank (phases (tick_calls counting 16 (Some 1) sleepy_engine)))
   \<and> phases (tick_calls counting 16 (Some 1) sleepy_engine) =
       [Grid, Detect, PairMerge, PairMerge, SleepWake, VelocitySolve, VelocitySolve,
        VelocitySolve, VelocitySolve, VelocitySolve, PositionSolve, PositionSolve,
        PositionSolve, PositionSolve, PositionSolve, PositionSolve, PositionSolve, Metrics]
   \<and> tick_calls counting 16 (Some 1) sleepy_engine ! 5 = BodyUpdateAll 16 (Some 1)
   \<and> tick_calls counting 16 (Some 1) sleepy_engine ! 7 = BroadphaseControllerUpdate
   \<and> precedes is_integrator (\<lambda>x. phase_of x \<noteq> None) (tick_calls counting 16 (Some 1) sleepy_engine)"
proof -
  have "phases (tick_calls counting 16 (Some 1) sleepy_engine) =
       [Grid, Detect, PairMerge, PairMerge, SleepWake, VelocitySolve, VelocitySolve,
        VelocitySolve, VelocitySolve, VelocitySolve, PositionSolve, PositionSolve,
        PositionSolve, PositionSolve, PositionSolve, PositionSolve, PositionSolve, Metrics]"
    by code_simp
  moreover have "tick_calls counting 16 (Some 1) sleepy_engine ! 5 = BodyUpdateAll 16 (Some 1)"
    by code_simp
  moreover have "tick_calls counting 16 (Some 1) sleepy_engine ! 7 = BroadphaseControllerUpdate"
    by code_simp
  ultimately show ?thesis
    using Engine_update_phase_order [of counting 16 "Some 1" sleepy_engine] by simp
qed

text \<open>
  Claim C1 as it was stated fails: it places the integrator after the resolver phases. In
  a tick of the default engine \<^verbatim>\<open>Body.updateAll\<close> stands at index 4 of the calls and the
  first resolver call, \<^verbatim>\<open>Resolver.preSolveVelocity\<close>, at index 10, so the resolver calls
  do not all precede the integrator.
\<close>

theorem integrator_after_resolver_counterexample:
  "tick_calls counting 16 (Some 1) default_engine ! 4 = BodyUpdateAll 16 (Some 1)
   \<and> tick_calls counting 16 (Some 1) default_engine ! 10 = ResolverPreSolveVelocity
   \<and> \<not> precedes is_resolver is_integrator (tick_calls counting 16 (Some 1) default_engine)"
proof -
  obtain b c where "tick_calls counting 16 (Some 1) default_engine =
      update_calls default_engine 16 (Some 1) b c"
    using tick_calls_closed [of counting 16 "Some 1" default_engine] by blast
  then have "\<not> precedes is_resolver is_integrator (tick_calls counting 16 (Some 1) default_engine)"
    using integrator_update_calls(3) by simp
  then show ?thesis
    by (simp add: default_tick)
qed

section \<open>The store after a tick\<close>

lemma constraint_loop_store:
  "objects (fst (constraint_loop m i s)) =
     (Constraint_updateAll m ^^ nat (constraintIterations (fst s) - i)) (objects (fst s))"
proof (induction m i s rule: constraint_loop.induct)
  case (1 m i s)
  show ?case
  proof (cases "i < constraintIterations (fst s)")
    case True
    let ?s = "invoke ConstraintUpdateAll (Constraint_updateAll m) s"
    have n: "nat (constraintIterations (fst s) - i) = Suc (nat (constraintIterations (fst s) - (i + 1)))"
      using True by simp
    have c: "constraintIterations (fst ?s) = constraintIterations (fst s)"
      by (simp add: invoke_def)
    from 1 [OF True] c have
      "objects (fst (constraint_loop m (i + 1) ?s)) =
         (Constraint_updateAll m ^^ nat (constraintIterations (fst s) - (i + 1))) (objects (fst ?s))"
      by simp
    then have "objects (fst (constraint_loop m (i + 1) ?s)) =
         (Constraint_updateAll m ^^ nat (constraintIterations (fst s) - i)) (objects (fst s))"
      unfolding n by (simp add: funpow_swap1)
    moreover have "constraint_loop m i s = constraint_loop m (i + 1) ?s"
      using True by (simp add: constraint_loop.simps [of m i s])
    ultimately show ?thesis
      by (simp only:)
  next
    case False
    then show ?thesis by (simp add: constraint_loop.simps [of m i s])
  qed
qed

lemma velocity_loop_store:
  "objects (fst (velocity_loop m i s)) =
     (Resolver_solveVelocity m ^^ nat (velocityIterations (fst s) - i)) (objects (fst s))"
proof (induction m i s rule: velocity_loop.induct)
  case (1 m i s)
  show ?case
  proof (cases "i < velocityIterations (fst s)")
    case True
    let ?s = "invoke ResolverSolveVelocity (Resolver_solveVelocity m) s"
    have n: "nat (velocityIterations (fst s) - i) = Suc (nat (velocityIterations (fst s) - (i + 1)))"
      using True by simp
    have c: "velocityIterations (fst ?s) = velocityIterations (fst s)"
      by (simp add: invoke_def)
    from 1 [OF True] c have
      "objects (fst (velocity_loop m (i + 1) ?s)) =
         (Resolver_solveVelocity m ^^ nat (velocityIterations (fst s) - (i + 1))) (objects (fst ?s))"
      by simp
    then have "objects (fst (velocity_loop m (i + 1) ?s)) =
         (Resolver_solveVelocity m ^^ nat (velocityIterations (fst s) - i)) (objects (fst s))"
      unfolding n by (simp add: funpow_swap1)
    moreover have "velocity_loop m i s = velocity_loop m (i + 1) ?s"
      using True by (simp add: velocity_loop.simps [of m i s])
    ultimately show ?thesis
      by (simp only:)
  next
    case False
    then show ?thesis by (simp add: velocity_loop.simps [of m i s])
  qed
qed

lemma position_loop_store:
  "objects (fst (position_loop m i s)) =
     (Resolver_solvePosition m ^^ nat (positionIterations (fst s) - i)) (objects (fst s))"
proof (induction m i s rule: position_loop.induct)
  case (1 m i s)
  show ?case
  proof (cases "i < positionIterations (fst s)")
    case True
    let ?s = "invoke ResolverSolvePosition (Resolver_solvePosition m) s"
    have n: "nat (positionIterations (fst s) - i) = Suc (nat (positionIterations (fst s) - (i + 1)))"
      using True by simp
    have c: "positionIterations (fst ?s) = positionIterations (fst s)"
      by (simp add: invoke_def)
    from 1 [OF True] c have
      "objects (fst (position_loop m (i + 1) ?s)) =
         (Resolver_solvePosition m ^^ nat (positionIterations (fst s) - (i + 1))) (objects (fst ?s))"
      by simp
    then have "objects (fst (position_loop m (i + 1) ?s)) =
         (Resolver_solvePosition m ^^ nat (positionIterations (fst s) - i)) (objects (fst s))"
      unfolding n by (simp add: funpow_swap1)
    moreover have "position_loop m i s = position_loop m (i + 1) ?s"
      using True by (simp add: position_loop.simps [of m i s])
    ultimately show ?thesis
      by (simp only:)
  next
    case False
    then show ?thesis by (simp add: position_loop.simps [of m i s])
  qed
qed

lemma Engine_update_exact:
  fixes m :: "('w, 'c, 'p) modules" and s :: "('w, 'c, 'p) state"
  assumes det: "detector m (pairs_source m d k (fst s)) (store_at_detection m d k (fst s)) = (c, w)"
  shows "snd (Engine_update m d k s) =
      snd s @ update_calls (fst s) d k
        (broadphase_controller m (store_before_broadphase m d k (fst s))) c"
    and "objects (fst (Engine_update m d k s)) =
      rest_of_tick m (fst s)
        (Manager_removeOldPairs m (timestamp (timing (fst s)))
          (Manager_updatePairs m c (timestamp (timing (fst s))) w))"
proof -
  define s1 where "s1 = note_call (EngineUpdate d k) s"
  define s2 where "s2 = invoke MetricsReset (Metrics_reset m) s1"
  define s3 where "s3 = (if enableSleeping (fst s2) then invoke SleepingUpdate (Sleeping_update m) s2 else s2)"
  define s4 where "s4 = invoke BodyApplyGravityAll (Body_applyGravityAll m) s3"
  define s5 where "s5 = invoke MouseConstraintUpdate (MouseConstraint_update m) s4"
  define s6 where "s6 = invoke (BodyUpdateAll (d * timeScale (fst s5)) k)
                (Body_updateAll m (d * timeScale (fst s5)) k) s5"
  define s7 where "s7 = constraint_loop m 0 s6"
  define sb where "sb = (if broadphase_controller m (objects (fst s7))
             then (invoke BroadphaseControllerUpdate (controller_update m) s7, InstancePairsList)
             else (s7, WorldBodies))"
  define cw where "cw = detector m (snd sb) (objects (fst (fst sb)))"
  define s8 where "s8 = invoke (BroadphaseDetector (snd sb) (fst cw)) (\<lambda>_. snd cw) (fst sb)"
  define ts where "ts = timestamp (timing (fst s8))"
  define s9 where "s9 = invoke (ManagerUpdatePairs (fst cw) ts) (Manager_updatePairs m (fst cw) ts) s8"
  define s10 where "s10 = invoke (ManagerRemoveOldPairs ts) (Manager_removeOldPairs m ts) s9"
  define s11 where "s11 = (if enableSleeping (fst s10)
               then invoke SleepingAfterCollisions (Sleeping_afterCollisions m) s10 else s10)"
  define s12 where "s12 = invoke ResolverPreSolveVelocity (Resolver_preSolveVelocity m) s11"
  define s13 where "s13 = velocity_loop m 0 s12"
  define s14 where "s14 = position_loop m 0 s13"
  define s15 where "s15 = invoke ResolverPostSolvePosition (Resolver_postSolvePosition m) s14"
  define s16 where "s16 = invoke MetricsUpdate (Metrics_update m) s15"
  define s17 where "s17 = invoke BodyResetForcesAll (Body_resetForcesAll m) s16"
  have E: "Engine_update m d k s = note_call EngineUpdateReturn s17"
    unfolding Engine_update_def Let_def case_prod_beta s17_def s16_def s15_def s14_def s13_def
      s12_def s11_def s10_def s9_def ts_def s8_def cw_def sb_def s7_def s6_def s5_def s4_def
      s3_def s2_def s1_def
    by (rule refl)
  let ?e = "fst s"
  let ?w = "store_before_broadphase m d k (fst s)"
  let ?B = "broadphase_controller m ?w"
  let ?t = "timestamp (timing (fst s))"
  have 1: "same_settings ?e (fst s1)" "snd s1 = snd s @ [EngineUpdate d k]"
    "objects (fst s1) = objects ?e"
    by (simp_all add: s1_def)
  have 2: "same_settings ?e (fst s2)" "snd s2 = snd s1 @ [MetricsReset]"
    "objects (fst s2) = Metrics_reset m (objects ?e)"
    using 1 by (simp_all add: s2_def same_settings_def invoke_def)
  have 3: "same_settings ?e (fst s3)"
    "snd s3 = snd s2 @ (if enableSleeping ?e then [SleepingUpdate] else [])"
    "objects (fst s3) = (if enableSleeping ?e then Sleeping_update m else id) (objects (fst s2))"
    using 2(1) by (simp_all add: s3_def same_settings_def invoke_def)
  have 4: "same_settings ?e (fst s4)" "snd s4 = snd s3 @ [BodyApplyGravityAll]"
    "objects (fst s4) = Body_applyGravityAll m (objects (fst s3))"
    using 3(1) by (simp_all add: s4_def same_settings_def invoke_def)
  have 5: "same_settings ?e (fst s5)" "snd s5 = snd s4 @ [MouseConstraintUpdate]"
    "objects (fst s5) = MouseConstraint_update m (objects (fst s4))"
    using 4(1) by (simp_all add: s5_def same_settings_def invoke_def)
  have 6: "same_settings ?e (fst s6)" "snd s6 = snd s5 @ [BodyUpdateAll (d * timeScale ?e) k]"
    "objects (fst s6) = Body_updateAll m (d * timeScale ?e) k (objects (fst s5))"
    using 5(1) by (simp_all add: s6_def same_settings_def invoke_def)
  have 7: "same_settings ?e (fst s7)"
    "snd s7 = snd s6 @ replicate (nat (constraintIterations ?e)) ConstraintUpdateAll"
    "objects (fst s7) = (Constraint_updateAll m ^^ nat (constraintIterations ?e)) (objects (fst s6))"
    using 6(1) constraint_loop_calls [of m 0 s6] constraint_loop_store [of m 0 s6]
    by (simp_all add: s7_def same_settings_def)
  have w7: "objects (fst s7) = ?w"
    by (simp only: 7(3) 6(3) 5(3) 4(3) 3(3) 2(3) store_before_broadphase_def)
  have b: "same_settings ?e (fst (fst sb))"
    "snd (fst sb) = snd s7 @ (if ?B then [BroadphaseControllerUpdate] else [])"
    "snd sb = pairs_source m d k ?e"
    "objects (fst (fst sb)) = store_at_detection m d k ?e"
    using 7(1) w7 by (simp_all add: sb_def same_settings_def invoke_def pairs_source_def
        store_at_detection_def)
  have cw: "cw = (c, w)"
    using det by (simp add: cw_def b(3) b(4))
  have 8: "same_settings ?e (fst s8)"
    "snd s8 = snd (fst sb) @ [BroadphaseDetector (if ?B then InstancePairsList else WorldBodies) c]"
    "objects (fst s8) = w"
    using b(1) by (simp_all add: s8_def same_settings_def invoke_def cw b(3) pairs_source_def)
  have t: "ts = ?t"
    using 8(1) by (simp add: ts_def same_settings_def)
  have 9: "same_settings ?e (fst s9)"
    "snd s9 = snd s8 @ [ManagerUpdatePairs c ?t]"
    "objects (fst s9) = Manager_updatePairs m c ?t w"
    using 8(1) 8(3) by (simp_all add: s9_def same_settings_def invoke_def t cw)
  have 10: "same_settings ?e (fst s10)"
    "snd s10 = snd s9 @ [ManagerRemoveOldPairs ?t]"
    "objects (fst s10) = Manager_removeOldPairs m ?t (Manager_updatePairs m c ?t w)"
    using 9(1) 9(3) by (simp_all add: s10_def same_settings_def invoke_def t)
  have 11: "same_settings ?e (fst s11)"
    "snd s11 = snd s10 @ (if enableSleeping ?e then [SleepingAfterCollisions] else [])"
    "objects (fst s11) = (if enableSleeping ?e then Sleeping_afterCollisions m else id) (objects (fst s10))"
    using 10(1) by (simp_all add: s11_def same_settings_def invoke_def)
  have 12: "same_settings ?e (fst s12)" "snd s12 = snd s11 @ [ResolverPreSolveVelocity]"
    "objects (fst s12) = Resolver_preSolveVelocity m (objects (fst s11))"
    using 11(1) by (simp_all add: s12_def same_settings_def invoke_def)
  have 13: "same_settings ?e (fst s13)"
    "snd s13 = snd s12 @ replicate (nat (velocityIterations ?e)) ResolverSolveVelocity"
    "objects (fst s13) = (Resolver_solveVelocity m ^^ nat (velocityIterations ?e)) (objects (fst s12))"
    using 12(1) velocity_loop_calls [of m 0 s12] velocity_loop_store [of m 0 s12]
    by (simp_all add: s13_def same_settings_def)
  have 14: "same_settings ?e (fst s14)"
    "snd s14 = snd s13 @ replicate (nat (positionIterations ?e)) ResolverSolvePosition"
    "objects (fst s14) = (Resolver_solvePosition m ^^ nat (positionIterations ?e)) (objects (fst s13))"
    using 13(1) position_loop_calls [of m 0 s13] position_loop_store [of m 0 s13]
    by (simp_all add: s14_def same_settings_def)
  have 15: "snd s15 = snd s14 @ [ResolverPostSolvePosition]"
    "objects (fst s15) = Resolver_postSolvePosition m (objects (fst s14))"
    by (simp_all add: s15_def)
  have 16: "snd s16 = snd s15 @ [MetricsUpdate]"
    "objects (fst s16) = Metrics_update m (objects (fst s15))"
    by (simp_all add: s16_def)
  have 17: "snd s17 = snd s16 @ [BodyResetForcesAll]"
    "objects (fst s17) = Body_resetForcesAll m (objects (fst s16))"
    by (simp_all add: s17_def)
  show "snd (Engine_update m d k s) = snd s @ update_calls ?e d k ?B c"
    unfolding E update_calls_def
    by (simp only: snd_note_call 1(2) 2(2) 3(2) 4(2) 5(2) 6(2) 7(2) b(2) 8(2) 9(2) 10(2) 11(2)
        12(2) 13(2) 14(2) 15(1) 16(1) 17(1) append_assoc append_Cons append_Nil)
  show "objects (fst (Engine_update m d k s)) =
      rest_of_tick m ?e (Manager_removeOldPairs m ?t (Manager_updatePairs m c ?t w))"
    unfolding E rest_of_tick_def
    by (simp only: fst_note_call 17(2) 16(2) 15(2) 14(3) 13(3) 12(3) 11(3) 10(3))
qed

section \<open>The resolver, the pair manager, the wake check and the constraints in a tick\<close>





lemma pairs_update_calls:
  "\<exists>pre post.
     update_calls e d k b c =
       pre @ [BroadphaseDetector (if b then InstancePairsList else WorldBodies) c,
              ManagerUpdatePairs c (timestamp (timing e)),
              ManagerRemoveOldPairs (timestamp (timing e))] @ post
     \<and> (\<forall>x\<in>set (pre @ post). phase_of x \<noteq> Some Detect \<and> phase_of x \<noteq> Some PairMerge)"
proof -
  let ?pre = "[EngineUpdate d k, MetricsReset]
     @ (if enableSleeping e then [SleepingUpdate] else [])
     @ [BodyApplyGravityAll, MouseConstraintUpdate, BodyUpdateAll (d * timeScale e) k]
     @ replicate (nat (constraintIterations e)) ConstraintUpdateAll
     @ (if b then [BroadphaseControllerUpdate] else [])"
  let ?post = "(if enableSleeping e then [SleepingAfterCollisions] else [])
     @ [ResolverPreSolveVelocity]
     @ replicate (nat (velocityIterations e)) ResolverSolveVelocity
     @ replicate (nat (positionIterations e)) ResolverSolvePosition
     @ [ResolverPostSolvePosition, MetricsUpdate, BodyResetForcesAll, EngineUpdateReturn]"
  have "update_calls e d k b c =
       ?pre @ [BroadphaseDetector (if b then InstancePairsList else WorldBodies) c,
               ManagerUpdatePairs c (timestamp (timing e)),
               ManagerRemoveOldPairs (timestamp (timing e))] @ ?post"
    by (simp add: update_calls_def)
  moreover have "\<forall>x\<in>set (?pre @ ?post). phase_of x \<noteq> Some Detect \<and> phase_of x \<noteq> Some PairMerge"
    by auto
  ultimately show ?thesis by blast
qed

text \<open>
  Claim C5. Let \<open>c\<close> be the collisions that the detector returns in a tick and \<open>w\<close>
  the store it leaves. In the calls of the tick, \<open>c\<close> is handed to
  \<^verbatim>\<open>Manager.updatePairs\<close> together with \<^verbatim>\<open>engine.timing.timestamp\<close>, and the very next
  call is \<^verbatim>\<open>Manager.removeOldPairs\<close> with the same timestamp; the tick has no other call
  of the detector or of the pair manager. In the store, the effect of both calls is
  there: the store with which the tick ends is \<open>w\<close> after \<^verbatim>\<open>Manager.updatePairs\<close> with
  \<open>c\<close> and the timestamp, then \<^verbatim>\<open>Manager.removeOldPairs\<close> with the same timestamp, then
  the rest of the tick (wake check, resolver, metrics update, reset of the forces). So
  in every tick the merge and, after it, the eviction act on the engine's store, and
  the later phases work on what they leave.
\<close>

theorem Engine_update_pairs:
  assumes "detector m (pairs_source m d k e) (store_at_detection m d k e) = (c, w)"
  shows "(\<exists>pre post.
       tick_calls m d k e =
         pre @ [BroadphaseDetector (pairs_source m d k e) c,
                ManagerUpdatePairs c (timestamp (timing e)),
                ManagerRemoveOldPairs (timestamp (timing e))] @ post
       \<and> (\<forall>x\<in>set (pre @ post). phase_of x \<noteq> Some Detect \<and> phase_of x \<noteq> Some PairMerge))
   \<and> objects (fst (Engine_update m d k (e, []))) =
       rest_of_tick m e
         (Manager_removeOldPairs m (timestamp (timing e))
           (Manager_updatePairs m c (timestamp (timing e)) w))"
proof -
  have det: "detector m (pairs_source m d k (fst (e, []))) (store_at_detection m d k (fst (e, []))) = (c, w)"
    using assms by simp
  have "tick_calls m d k e =
      update_calls e d k (broadphase_controller m (store_before_broadphase m d k e)) c"
    using Engine_update_exact(1) [OF det] by (simp add: tick_calls_def)
  moreover have "objects (fst (Engine_update m d k (e, []))) =
       rest_of_tick m e
         (Manager_removeOldPairs m (timestamp (timing e))
           (Manager_updatePairs m c (timestamp (timing e)) w))"
    using Engine_update_exact(2) [OF det] by simp
  ultimately show ?thesis
    using pairs_update_calls [of e d k "broadphase_controller m (store_before_broadphase m d k e)" c]
    by (simp add: pairs_source_def)
qed

lemma stale_tick:
  "tick_calls tabling 16 (Some 1) stale_engine =
     [EngineUpdate 16 (Some 1), MetricsReset, BodyApplyGravityAll, MouseConstraintUpdate,
      BodyUpdateAll 16 (Some 1), ConstraintUpdateAll, BroadphaseControllerUpdate,
      BroadphaseDetector InstancePairsList 1, ManagerUpdatePairs 1 2000,
      ManagerRemoveOldPairs 2000, ResolverPreSolveVelocity,
      ResolverSolveVelocity, ResolverSolveVelocity, ResolverSolveVelocity, ResolverSolveVelocity,
      ResolverSolvePosition, ResolverSolvePosition, ResolverSolvePosition, ResolverSolvePosition,
      ResolverSolvePosition, ResolverSolvePosition,
      ResolverPostSolvePosition, MetricsUpdate, BodyResetForcesAll, EngineUpdateReturn]"
  by code_simp

text \<open>
  Claim C5, at a tick at time 2000 on a pair table that holds one pair, last active at
  time 500: the detector reports the collision \<open>1\<close> (index 7 of the calls),
  \<^verbatim>\<open>Manager.updatePairs\<close> (index 8) enters it with the timestamp 2000,
  \<^verbatim>\<open>Manager.removeOldPairs\<close> (index 9) drops the stale pair, and the tick ends with the
  table that holds the new pair only.
\<close>

theorem Engine_update_pairs_witness:
  "detector tabling (pairs_source tabling 16 (Some 1) stale_engine)
       (store_at_detection tabling 16 (Some 1) stale_engine) = (1, [(7, 500)])
   \<and> timestamp (timing stale_engine) = 2000
   \<and> tick_calls tabling 16 (Some 1) stale_engine ! 7 = BroadphaseDetector InstancePairsList 1
   \<and> tick_calls tabling 16 (Some 1) stale_engine ! 8 = ManagerUpdatePairs 1 2000
   \<and> tick_calls tabling 16 (Some 1) stale_engine ! 9 = ManagerRemoveOldPairs 2000
   \<and> Manager_updatePairs tabling 1 2000 [(7, 500)] = [(1, 2000), (7, 500)]
   \<and> Manager_removeOldPairs tabling 2000 [(1, 2000), (7, 500)] = [(1, 2000)]
   \<and> objects (fst (Engine_update tabling 16 (Some 1) (stale_engine, []))) = [(1, 2000)]"
proof -
  have det: "detector tabling (pairs_source tabling 16 (Some 1) stale_engine)
       (store_at_detection tabling 16 (Some 1) stale_engine) = (1, [(7, 500)])"
    by code_simp
  have t: "timestamp (timing stale_engine) = 2000"
    by (simp add: stale_engine_def Let_def)
  have c: "tick_calls tabling 16 (Some 1) stale_engine ! 7 = BroadphaseDetector InstancePairsList 1"
    "tick_calls tabling 16 (Some 1) stale_engine ! 8 = ManagerUpdatePairs 1 2000"
    "tick_calls tabling 16 (Some 1) stale_engine ! 9 = ManagerRemoveOldPairs 2000"
    by (simp_all add: stale_tick)
  have u: "Manager_updatePairs tabling 1 2000 [(7, 500)] = [(1, 2000), (7, 500)]"
    "Manager_removeOldPairs tabling 2000 [(1, 2000), (7, 500)] = [(1, 2000)]"
    by (simp_all add: tabling_def)
  have r: "rest_of_tick tabling stale_engine [(1, 2000)] = [(1, 2000)]"
    by code_simp
  have "objects (fst (Engine_update tabling 16 (Some 1) (stale_engine, []))) = [(1, 2000)]"
    using Engine_update_pairs [OF det] by (simp only: t u r)
  with det t c u show ?thesis by blast
qed







lemma no_sleeping_update_calls:
  "\<not> enableSleeping e \<Longrightarrow>
     SleepingUpdate \<notin> set (update_calls e d k b c)
     \<and> SleepingAfterCollisions \<notin> set (update_calls e d k b c)"
  by (auto simp: update_calls_def)

text \<open>
  Claim C9. The defaults of \<^verbatim>\<open>Engine.create\<close> have \<^verbatim>\<open>enableSleeping\<close> false, and a tick of
  an engine whose \<^verbatim>\<open>enableSleeping\<close> is false calls neither \<^verbatim>\<open>Sleeping.update\<close> nor
  \<^verbatim>\<open>Sleeping.afterCollisions\<close>.
\<close>

theorem Engine_update_no_sleeping:
  assumes "\<not> enableSleeping e"
  shows "SleepingUpdate \<notin> set (tick_calls m d k e)
   \<and> SleepingAfterCollisions \<notin> set (tick_calls m d k e)
   \<and> \<not> enableSleeping (defaults w)"
proof -
  obtain b c where "tick_calls m d k e = update_calls e d k b c"
    using tick_calls_closed [of m d k e] by blast
  then show ?thesis
    using no_sleeping_update_calls [OF assms, of d k b c] by (simp add: defaults_def)
qed

text \<open>
  Claim C9, at a tick of the default engine: none of its 25 calls is a call of
  \<^verbatim>\<open>Sleeping\<close>.
\<close>

theorem Engine_update_no_sleeping_witness:
  "\<not> enableSleeping default_engine
   \<and> SleepingUpdate \<notin> set (tick_calls counting 16 (Some 1) default_engine)
   \<and> SleepingAfterCollisions \<notin> set (tick_calls counting 16 (Some 1) default_engine)
   \<and> length (tick_calls counting 16 (Some 1) default_engine) = 25"
proof -
  have s: "\<not> enableSleeping default_engine"
    by (simp add: default_engine_def defaults_def)
  moreover have "length (tick_calls counting 16 (Some 1) default_engine) = 25"
    by (simp add: default_tick)
  ultimately show ?thesis
    using Engine_update_no_sleeping [OF s, of counting 16 "Some 1" "0::nat"] by simp
qed

section \<open>The calls of a frame\<close>

lemma precedes_none_left: "\<forall>x\<in>set xs. \<not> P x \<Longrightarrow> precedes P Q xs"
  unfolding precedes_def by (meson nth_mem)

lemma precedes_none_right: "\<forall>x\<in>set xs. \<not> Q x \<Longrightarrow> precedes P Q xs"
  unfolding precedes_def by (meson nth_mem)

lemma precedes_splitI:
  "\<forall>x\<in>set xs. \<not> Q x \<Longrightarrow> \<forall>y\<in>set ys. \<not> P y \<Longrightarrow> precedes P Q (xs @ ys)"
  by (simp add: precedes_append precedes_none_left precedes_none_right)

lemma preceded_by_none: "\<forall>x\<in>set xs. \<not> Q x \<Longrightarrow> preceded_by y Q xs"
  unfolding preceded_by_def by (meson nth_mem)

lemma update_args_append [simp]: "update_args (xs @ ys) = update_args xs @ update_args ys"
  by (induction xs rule: update_args.induct) simp_all

lemma update_args_none: "\<forall>x\<in>set xs. \<forall>d k. x \<noteq> EngineUpdate d k \<Longrightarrow> update_args xs = []"
  by (induction xs rule: update_args.induct) simp_all

lemma update_args_replicate [simp]:
  "\<forall>d k. x \<noteq> EngineUpdate d k \<Longrightarrow> update_args (replicate n x) = []"
  by (rule update_args_none) simp

lemma update_args_update_calls [simp]: "update_args (update_calls e d k b c) = [(d, k)]"
  by (simp add: update_calls_def)

lemma update_calls_triggers:
  "\<forall>x\<in>set (update_calls e d k b c). \<not> is_trigger x \<and> \<not> is_collision_trigger x"
  by (auto simp: update_calls_def)

lemma update_calls_return: "EngineUpdateReturn \<in> set (update_calls e d k b c)"
  by (simp add: update_calls_def)

lemma collision_trigger_simps:
  "is_collision_trigger x \<Longrightarrow> x \<noteq> EngineUpdate d k"
  "is_collision_trigger x \<Longrightarrow> x \<noteq> EngineUpdateReturn"
  "is_trigger x \<Longrightarrow> x \<noteq> EngineUpdate d k"
  "is_trigger x \<Longrightarrow> x \<noteq> EngineUpdateReturn"
  by (cases x; simp)+

lemma frame_calls_disabled: "\<not> enabled e \<Longrightarrow> frame_calls m t vars e = [RequestAnimationFrame]"
  by (simp add: frame_calls_def render_disabled)

lemma frame_calls_closed:
  assumes "enabled e"
  shows "\<exists>b c ct mt rw.
     frame_calls m t vars e =
       ([RequestAnimationFrame, EventsTrigger ''beforeTick'' (TimestampEvent (frame_time t)),
         EventsTrigger ''tick beforeUpdate'' (TimestampEvent (frame_time t))]
        @ update_calls (e\<lparr>timing := (timing e)\<lparr>timestamp := frame_time t\<rparr>\<rparr>)
            (frame_delta vars e t) (js_divide (frame_delta vars e t) (delta (timing e))) b c)
        @ ct @ mt
        @ [MouseClearSourceEvents,
           EventsTrigger ''afterUpdate beforeRender'' (TimestampEvent (frame_time t))]
        @ rw @ [EventsTrigger ''afterTick afterRender'' (TimestampEvent (frame_time t))]
     \<and> (\<forall>x\<in>set ct. is_collision_trigger x)
     \<and> (\<forall>x\<in>set mt. is_trigger x \<and> \<not> is_collision_trigger x)
     \<and> (\<forall>x\<in>set rw. x = RenderControllerWorld)"
  using render_steps(1) [where s = "(e, [])" and m = m and vars = vars and t = t] assms
  by (simp add: frame_calls_def)

text \<open>
  Claim C2. In the calls of every frame, each trigger of \<^verbatim>\<open>collisionStart\<close>,
  \<^verbatim>\<open>collisionActive\<close> or \<^verbatim>\<open>collisionEnd\<close> has the return of \<^verbatim>\<open>Engine.update\<close> before it,
  and no such trigger stands before that return; and \<^verbatim>\<open>Engine.update\<close> itself, whatever
  its arguments, makes no call of \<^verbatim>\<open>Events.trigger\<close> at all.
\<close>

theorem collision_events_after_update:
  "preceded_by EngineUpdateReturn is_collision_trigger (frame_calls m t vars e)
   \<and> precedes (\<lambda>x. x = EngineUpdateReturn) is_collision_trigger (frame_calls m t vars e)
   \<and> (\<forall>x\<in>set (tick_calls m d k e). \<not> is_trigger x)"
proof -
  have tick: "\<forall>x\<in>set (tick_calls m d k e). \<not> is_trigger x"
    using tick_calls_closed [of m d k e] update_calls_triggers by metis
  have "preceded_by EngineUpdateReturn is_collision_trigger (frame_calls m t vars e)
    \<and> precedes (\<lambda>x. x = EngineUpdateReturn) is_collision_trigger (frame_calls m t vars e)"
  proof (cases "enabled e")
    case False
    then show ?thesis
      by (simp add: frame_calls_disabled preceded_by_none)
  next
    case True
    let ?ev = "TimestampEvent (frame_time t)"
    from frame_calls_closed [OF True, of m t vars] obtain b c ct mt rw where
      f: "frame_calls m t vars e =
       ([RequestAnimationFrame, EventsTrigger ''beforeTick'' ?ev,
         EventsTrigger ''tick beforeUpdate'' ?ev]
        @ update_calls (e\<lparr>timing := (timing e)\<lparr>timestamp := frame_time t\<rparr>\<rparr>)
            (frame_delta vars e t) (js_divide (frame_delta vars e t) (delta (timing e))) b c)
        @ ct @ mt
        @ [MouseClearSourceEvents, EventsTrigger ''afterUpdate beforeRender'' ?ev]
        @ rw @ [EventsTrigger ''afterTick afterRender'' ?ev]"
      and ct: "\<forall>x\<in>set ct. is_collision_trigger x"
      and mt: "\<forall>x\<in>set mt. is_trigger x \<and> \<not> is_collision_trigger x"
      and rw: "\<forall>x\<in>set rw. x = RenderControllerWorld"
      by blast
    let ?U = "update_calls (e\<lparr>timing := (timing e)\<lparr>timestamp := frame_time t\<rparr>\<rparr>)
            (frame_delta vars e t) (js_divide (frame_delta vars e t) (delta (timing e))) b c"
    have ut: "\<forall>x\<in>set ?U. \<not> is_trigger x \<and> \<not> is_collision_trigger x"
      by (rule update_calls_triggers)
    have ur: "EngineUpdateReturn \<in> set ?U"
      by (rule update_calls_return)
    have 1: "preceded_by EngineUpdateReturn is_collision_trigger (frame_calls m t vars e)"
      unfolding f
      by (rule preceded_by_appendI) (use ur ut in auto)
    have nr: "\<forall>x\<in>set (ct @ mt @ [MouseClearSourceEvents, EventsTrigger ''afterUpdate beforeRender'' ?ev]
        @ rw @ [EventsTrigger ''afterTick afterRender'' ?ev]). x \<noteq> EngineUpdateReturn"
      using ct mt rw collision_trigger_simps by auto
    have nc: "\<forall>x\<in>set ([RequestAnimationFrame, EventsTrigger ''beforeTick'' ?ev,
         EventsTrigger ''tick beforeUpdate'' ?ev] @ ?U). \<not> is_collision_trigger x"
      using ut by auto
    have 2: "precedes (\<lambda>x. x = EngineUpdateReturn) is_collision_trigger (frame_calls m t vars e)"
      unfolding f using nc nr by (rule precedes_splitI)
    from 1 2 show ?thesis ..
  qed
  with tick show ?thesis by blast
qed

lemma default_frame:
  "frame_calls counting (Some 16) fresh_vars default_engine =
     [RequestAnimationFrame, EventsTrigger ''beforeTick'' (TimestampEvent 16),
      EventsTrigger ''tick beforeUpdate'' (TimestampEvent 16),
      EngineUpdate (50 / 3) (Some 1), MetricsReset, BodyApplyGravityAll, MouseConstraintUpdate,
      BodyUpdateAll (50 / 3) (Some 1), ConstraintUpdateAll, BroadphaseControllerUpdate,
      BroadphaseDetector InstancePairsList 8, ManagerUpdatePairs 8 16, ManagerRemoveOldPairs 16,
      ResolverPreSolveVelocity,
      ResolverSolveVelocity, ResolverSolveVelocity, ResolverSolveVelocity, ResolverSolveVelocity,
      ResolverSolvePosition, ResolverSolvePosition, ResolverSolvePosition, ResolverSolvePosition,
      ResolverSolvePosition, ResolverSolvePosition,
      ResolverPostSolvePosition, MetricsUpdate, BodyResetForcesAll, EngineUpdateReturn,
      EventsTrigger ''collisionStart'' (PairsEvent [25]), MouseClearSourceEvents,
      EventsTrigger ''afterUpdate beforeRender'' (TimestampEvent 16), RenderControllerWorld,
      EventsTrigger ''afterTick afterRender'' (TimestampEvent 16)]"
  by code_simp

text \<open>
  Claim C2, at a frame of the default engine in which \<^verbatim>\<open>pairs.collisionStart\<close> is not
  empty: \<^verbatim>\<open>Engine.update\<close> is entered at index 3 of the calls and returns at index 27,
  and the call at index 28 triggers \<^verbatim>\<open>collisionStart\<close>.
\<close>

theorem collision_events_after_update_witness:
  "frame_calls counting (Some 16) fresh_vars default_engine ! 3 = EngineUpdate (50 / 3) (Some 1)
   \<and> frame_calls counting (Some 16) fresh_vars default_engine ! 27 = EngineUpdateReturn
   \<and> frame_calls counting (Some 16) fresh_vars default_engine ! 28 =
        EventsTrigger ''collisionStart'' (PairsEvent [25])
   \<and> is_collision_trigger (frame_calls counting (Some 16) fresh_vars default_engine ! 28)
   \<and> preceded_by EngineUpdateReturn is_collision_trigger
        (frame_calls counting (Some 16) fresh_vars default_engine)
   \<and> precedes (\<lambda>x. x = EngineUpdateReturn) is_collision_trigger
        (frame_calls counting (Some 16) fresh_vars default_engine)"
proof -
  have "frame_calls counting (Some 16) fresh_vars default_engine ! 3 = EngineUpdate (50 / 3) (Some 1)"
    "frame_calls counting (Some 16) fresh_vars default_engine ! 27 = EngineUpdateReturn"
    "frame_calls counting (Some 16) fresh_vars default_engine ! 28 =
        EventsTrigger ''collisionStart'' (PairsEvent [25])"
    "is_collision_trigger (frame_calls counting (Some 16) fresh_vars default_engine ! 28)"
    by (simp_all add: default_frame)
  then show ?thesis
    using collision_events_after_update [of counting "Some 16" fresh_vars default_engine 16 "Some 1"]
    by blast
qed

lemma clamp_bounds:
  "clamp lo hi x \<le> hi" "lo \<le> hi \<Longrightarrow> lo \<le> clamp lo hi x"
  by (simp_all add: clamp_def)

lemma update_args_frame_calls:
  assumes "enabled e"
  shows "update_args (frame_calls m t vars e) =
     [(frame_delta vars e t, js_divide (frame_delta vars e t) (delta (timing e)))]"
proof -
  let ?ev = "TimestampEvent (frame_time t)"
  from frame_calls_closed [OF assms, of m t vars] obtain b c ct mt rw where
    f: "frame_calls m t vars e =
       ([RequestAnimationFrame, EventsTrigger ''beforeTick'' ?ev,
         EventsTrigger ''tick beforeUpdate'' ?ev]
        @ update_calls (e\<lparr>timing := (timing e)\<lparr>timestamp := frame_time t\<rparr>\<rparr>)
            (frame_delta vars e t) (js_divide (frame_delta vars e t) (delta (timing e))) b c)
        @ ct @ mt
        @ [MouseClearSourceEvents, EventsTrigger ''afterUpdate beforeRender'' ?ev]
        @ rw @ [EventsTrigger ''afterTick afterRender'' ?ev]"
    and ct: "\<forall>x\<in>set ct. is_collision_trigger x"
    and mt: "\<forall>x\<in>set mt. is_trigger x \<and> \<not> is_collision_trigger x"
    and rw: "\<forall>x\<in>set rw. x = RenderControllerWorld"
    by blast
  have "update_args ct = []" "update_args mt = []" "update_args rw = []"
    using ct mt rw collision_trigger_simps by (auto intro!: update_args_none)
  then show ?thesis
    unfolding f by simp
qed

lemma managers_frame_calls:
  assumes "enabled e"
  shows "(\<exists>c. ManagerUpdatePairs c (frame_time t) \<in> set (frame_calls m t vars e))
   \<and> ManagerRemoveOldPairs (frame_time t) \<in> set (frame_calls m t vars e)"
proof -
  let ?ev = "TimestampEvent (frame_time t)"
  from frame_calls_closed [OF assms, of m t vars] obtain b c ct mt rw where
    f: "frame_calls m t vars e =
       ([RequestAnimationFrame, EventsTrigger ''beforeTick'' ?ev,
         EventsTrigger ''tick beforeUpdate'' ?ev]
        @ update_calls (e\<lparr>timing := (timing e)\<lparr>timestamp := frame_time t\<rparr>\<rparr>)
            (frame_delta vars e t) (js_divide (frame_delta vars e t) (delta (timing e))) b c)
        @ ct @ mt
        @ [MouseClearSourceEvents, EventsTrigger ''afterUpdate beforeRender'' ?ev]
        @ rw @ [EventsTrigger ''afterTick afterRender'' ?ev]"
    by blast
  have "ManagerUpdatePairs c (frame_time t) \<in> set (frame_calls m t vars e)"
    "ManagerRemoveOldPairs (frame_time t) \<in> set (frame_calls m t vars e)"
    unfolding f by (simp_all add: update_calls_def)
  then show ?thesis by blast
qed

text \<open>
  Claim C8, as amended. In every frame of an enabled engine \<^verbatim>\<open>Engine.update\<close> is called
  once, with \<open>frame_delta\<close> and the quotient of \<open>frame_delta\<close> by the \<^verbatim>\<open>timing.delta\<close>
  that the engine held when the frame began. \<open>frame_delta\<close> is the minimum of the recent
  raw deltas (the last eight at most of the history with this frame's raw delta appended,
  which is also the history that the frame leaves behind), raised to \<^verbatim>\<open>timing.deltaMin\<close>
  when below it and then lowered to \<^verbatim>\<open>timing.deltaMax\<close> when above it. It is the
  \<^verbatim>\<open>timing.delta\<close> that the next frame finds. It never exceeds \<^verbatim>\<open>timing.deltaMax\<close>, and
  it is at least \<^verbatim>\<open>timing.deltaMin\<close> provided that \<^verbatim>\<open>timing.deltaMin\<close> does not
  exceed \<^verbatim>\<open>timing.deltaMax\<close>. The pair is not all that the tick is given: the tick also
  takes the timestamp of the frame, through \<^verbatim>\<open>engine.timing.timestamp\<close>, and hands it to
  \<^verbatim>\<open>Manager.updatePairs\<close> and \<^verbatim>\<open>Manager.removeOldPairs\<close>.
\<close>

theorem render_delta_correction:
  assumes "enabled e"
  shows "update_args (frame_calls m t vars e) =
       [(frame_delta vars e t, js_divide (frame_delta vars e t) (delta (timing e)))]
   \<and> deltaHistory (fst (render m t (vars, (e, [])))) = recent_deltas vars e t
   \<and> delta (timing (fst (snd (render m t (vars, (e, [])))))) = frame_delta vars e t
   \<and> frame_delta vars e t \<le> deltaMax (timing e)
   \<and> (deltaMin (timing e) \<le> deltaMax (timing e) \<longrightarrow> deltaMin (timing e) \<le> frame_delta vars e t)
   \<and> (\<exists>c. ManagerUpdatePairs c (frame_time t) \<in> set (frame_calls m t vars e))
   \<and> ManagerRemoveOldPairs (frame_time t) \<in> set (frame_calls m t vars e)"
  using assms update_args_frame_calls [OF assms, of m t vars]
    managers_frame_calls [OF assms, of t m vars]
    render_steps(2) [where s = "(e, [])" and m = m and vars = vars and t = t]
    render_steps(5) [where s = "(e, [])" and m = m and vars = vars and t = t]
    clamp_bounds [of "deltaMin (timing e)" "deltaMax (timing e)" "Min (set (recent_deltas vars e t))"]
  by (simp add: frame_delta_def)

lemma full_frame_values:
  "enabled default_engine"
  "recent_deltas full_vars default_engine (Some 30) = [30, 30, 30, 30, 30, 30, 30, 30]"
  "frame_delta full_vars default_engine (Some 30) = 30"
  "deltaMin (timing default_engine) = 50 / 3" "deltaMax (timing default_engine) = 100 / 3"
  "delta (timing default_engine) = 50 / 3"
  by (simp_all add: recent_deltas_def frame_delta_def raw_delta_def frame_time_def last_n_def
      clamp_def full_vars_def default_engine_def defaults_def u_delta_def u_fps_def)

lemma full_frame:
  "frame_calls counting (Some 30) full_vars default_engine ! 11 = ManagerUpdatePairs 8 30"
  "frame_calls counting (Some 30) full_vars default_engine ! 12 = ManagerRemoveOldPairs 30"
  by code_simp+

text \<open>
  Claim C8, at a frame of the default engine (bounds \<open>50/3\<close> and \<open>100/3\<close>, previous delta
  \<open>50/3\<close>) at time 30, after eight frames whose raw deltas were 17 and seven times 30:
  the 17 has left the window, the minimum is 30, \<^verbatim>\<open>Engine.update\<close> gets the delta 30
  and the correction \<open>9/5\<close>, and the pair manager gets the timestamp 30.
\<close>

theorem render_delta_correction_witness:
  "enabled default_engine
   \<and> deltaHistory full_vars = [17, 30, 30, 30, 30, 30, 30, 30]
   \<and> update_args (frame_calls counting (Some 30) full_vars default_engine) = [(30, Some (9 / 5))]
   \<and> deltaHistory (fst (render counting (Some 30) (full_vars, (default_engine, [])))) =
        [30, 30, 30, 30, 30, 30, 30, 30]
   \<and> delta (timing (fst (snd (render counting (Some 30) (full_vars, (default_engine, [])))))) = 30
   \<and> deltaMin (timing default_engine) \<le> 30 \<and> 30 \<le> deltaMax (timing default_engine)
   \<and> frame_calls counting (Some 30) full_vars default_engine ! 11 = ManagerUpdatePairs 8 30
   \<and> ManagerRemoveOldPairs 30 \<in> set (frame_calls counting (Some 30) full_vars default_engine)"
proof -
  have "deltaHistory full_vars = [17, 30, 30, 30, 30, 30, 30, 30]"
    by (simp add: full_vars_def)
  moreover have "frame_time (Some 30) = 30"
    by (simp add: frame_time_def)
  ultimately show ?thesis
    using render_delta_correction [OF full_frame_values(1), of counting "Some 30" full_vars]
    by (simp add: full_frame_values js_divide_def full_frame(1))
qed

lemma early_frame:
  "update_args (frame_calls counting (Some 10) fresh_vars default_engine) = [(50 / 3, Some 1)]"
  "frame_calls counting (Some 10) fresh_vars default_engine ! 11 = ManagerUpdatePairs 8 10"
  by code_simp+

lemma later_tick:
  "tick_calls counting (50 / 3) (Some 1) default_engine ! 8 = ManagerUpdatePairs 6 0"
  "tick_calls counting (50 / 3) (Some 1) later_engine ! 8 = ManagerUpdatePairs 6 16"
  by code_simp+

text \<open>
  Claim C8 as it was stated fails in its last part, that \<^verbatim>\<open>Engine.update\<close> is
  parameterized purely by the delta and the correction. The frames of the default engine
  at time 16 and at time 10 both call \<^verbatim>\<open>Engine.update\<close> with the delta \<open>50/3\<close> and the
  correction 1, and \<^verbatim>\<open>Manager.updatePairs\<close> gets the timestamp 16 in the one and 10 in the
  other. Likewise two engines that differ in \<^verbatim>\<open>timing.timestamp\<close> only (0 and 16), given
  the same delta and correction, make different calls.
\<close>

theorem update_reads_timestamp_counterexample:
  "update_args (frame_calls counting (Some 16) fresh_vars default_engine) = [(50 / 3, Some 1)]
   \<and> update_args (frame_calls counting (Some 10) fresh_vars default_engine) = [(50 / 3, Some 1)]
   \<and> frame_calls counting (Some 16) fresh_vars default_engine ! 11 = ManagerUpdatePairs 8 16
   \<and> frame_calls counting (Some 10) fresh_vars default_engine ! 11 = ManagerUpdatePairs 8 10
   \<and> tick_calls counting (50 / 3) (Some 1) default_engine ! 8 = ManagerUpdatePairs 6 0
   \<and> tick_calls counting (50 / 3) (Some 1) later_engine ! 8 = ManagerUpdatePairs 6 16
   \<and> tick_calls counting (50 / 3) (Some 1) default_engine
        \<noteq> tick_calls counting (50 / 3) (Some 1) later_engine"
proof -
  have "tick_calls counting (50 / 3) (Some 1) default_engine
        \<noteq> tick_calls counting (50 / 3) (Some 1) later_engine"
  proof
    assume "tick_calls counting (50 / 3) (Some 1) default_engine
        = tick_calls counting (50 / 3) (Some 1) later_engine"
    then have "tick_calls counting (50 / 3) (Some 1) default_engine ! 8
        = tick_calls counting (50 / 3) (Some 1) later_engine ! 8"
      by simp
    then show False
      by (simp add: later_tick)
  qed
  then show ?thesis
    by (simp add: default_frame early_frame later_tick)
qed

text \<open>
  Claim C10. A frame of an engine whose \<^verbatim>\<open>enabled\<close> is false requests the next animation
  frame and does nothing else: the engine with its timing and its store, and the
  variables of the closure, are what they were, and the request is the only call made.
\<close>

theorem render_disabled_frame:
  assumes "\<not> enabled e"
  shows "render m t (vars, (e, calls)) = (vars, (e, calls @ [RequestAnimationFrame]))"
  using assms by (simp add: render_disabled note_call_def)

text \<open>
  Claim C10, at a frame of the default engine with \<^verbatim>\<open>enabled\<close> set to false.
\<close>

theorem render_disabled_frame_witness:
  "\<not> enabled disabled_engine
   \<and> render counting (Some 16) (fresh_vars, (disabled_engine, [])) =
       (fresh_vars, (disabled_engine, [RequestAnimationFrame]))"
proof -
  have d: "\<not> enabled disabled_engine"
    by (simp add: disabled_engine_def)
  then show ?thesis
    using render_disabled_frame [OF d, of counting "Some 16" fresh_vars "[]"] by simp
qed

section \<open>The engine that Engine.create returns\<close>

lemma on_store_engine:
  "\<exists>e'. on_store g (Engine e) = Engine e' \<and> same_settings e e'"
  by (simp add: same_settings_def)

lemma step_engine:
  assumes "\<exists>e. c = Engine e \<and> same_settings e0 e"
  shows "\<exists>e. on_store g c = Engine e \<and> same_settings e0 e"
    and "\<exists>e. (if b then on_store g c else c) = Engine e \<and> same_settings e0 e"
  using assms by (auto simp: same_settings_def)

lemma Engine_create_Element:
  fixes f :: "('w, 'o) factories"
  assumes "\<not> input_missing f (objects (Common_extend f (defaults (defaults_objects f)) options))"
  shows "\<exists>e. Engine_create f (Element :: ('x, 'w) element) options = Inr (Engine e)
           \<and> same_settings (Common_extend f (defaults (defaults_objects f)) options) e"
proof -
  define e0 where "e0 = Common_extend f (defaults (defaults_objects f)) options"
  define c0 :: "('x, 'w) created" where "c0 = Engine e0"
  define c1 where "c1 = (if render_missing f (store_of c0)
                    then (if (Element :: ('x, 'w) element) = Element
                          then on_store (element_appendChild f) (on_store (Render_create f) c0)
                          else on_store (Render_create f) c0)
                    else c0)"
  define c2 where "c2 = on_store (World_create f) c1"
  define c3 where "c3 = (if metrics_missing f (store_of c2)
                           then on_store (Metrics_create f) c2 else c2)"
  define c4 where "c4 = (if mouse_missing f (store_of c3)
                           then on_store (Mouse_create f) c3 else c3)"
  define c5 where "c5 = (if mouseConstraint_missing f (store_of c4)
                           then on_store (MouseConstraint_create f) c4 else c4)"
  define c6 where "c6 = on_store (World_addComposite f) c5"
  define c7 where "c7 = (if broadphase_missing f (store_of c6)
                           then on_store (Grid_create f) c6 else c6)"
  have E: "Engine_create f (Element :: ('x, 'w) element) options =
      (if input_missing f (store_of c0) then Inl TypeError else Inr c7)"
    unfolding Engine_create_def Let_def element.case option.case c7_def c6_def c5_def c4_def
      c3_def c2_def c1_def c0_def e0_def
    by (rule refl)
  have i: "\<not> input_missing f (store_of c0)"
    using assms by (simp add: c0_def e0_def)
  have 0: "\<exists>e. c0 = Engine e \<and> same_settings e0 e"
    by (simp add: c0_def)
  have 1: "\<exists>e. c1 = Engine e \<and> same_settings e0 e"
    unfolding c1_def using step_engine [OF step_engine(1) [OF 0]] 0 by simp
  have 2: "\<exists>e. c2 = Engine e \<and> same_settings e0 e"
    unfolding c2_def by (rule step_engine(1) [OF 1])
  have 3: "\<exists>e. c3 = Engine e \<and> same_settings e0 e"
    unfolding c3_def by (rule step_engine(2) [OF 2])
  have 4: "\<exists>e. c4 = Engine e \<and> same_settings e0 e"
    unfolding c4_def by (rule step_engine(2) [OF 3])
  have 5: "\<exists>e. c5 = Engine e \<and> same_settings e0 e"
    unfolding c5_def by (rule step_engine(2) [OF 4])
  have 6: "\<exists>e. c6 = Engine e \<and> same_settings e0 e"
    unfolding c6_def by (rule step_engine(1) [OF 5])
  have 7: "\<exists>e. c7 = Engine e \<and> same_settings e0 e"
    unfolding c7_def by (rule step_engine(2) [OF 6])
  from E i 7 show ?thesis
    unfolding e0_def by auto
qed

lemma Engine_create_Nullish: "Engine_create f Nullish options = Inl TypeError"
  by (simp add: Engine_create_def)

lemma Engine_create_no_input:
  "input_missing f w \<Longrightarrow> Engine_create f (OtherObject x w) options = Inl TypeError"
  by (simp add: Engine_create_def Let_def)

lemma Engine_create_other_object:
  "Engine_create plain_factories (OtherObject () 0) () = Inr (Argument () 7)"
  by code_simp

text \<open>
  Claim C3. When the first argument of \<^verbatim>\<open>Engine.create\<close> is a DOM element, as its
  \<^verbatim>\<open>@param {HTMLElement} element\<close> says, \<^verbatim>\<open>Common.extend\<close> leaves the iteration counts
  of the defaults as they are for the given options, and the extended defaults have their
  \<^verbatim>\<open>input\<close> object, \<^verbatim>\<open>Engine.create\<close> returns an engine whose \<^verbatim>\<open>velocityIterations\<close>
  is 4 and whose \<^verbatim>\<open>positionIterations\<close> is 6.
\<close>

theorem Engine_create_iterations:
  fixes f :: "('w, 'o) factories"
  assumes "velocityIterations (Common_extend f (defaults (defaults_objects f)) options) =
           velocityIterations (defaults (defaults_objects f))"
    and "positionIterations (Common_extend f (defaults (defaults_objects f)) options) =
         positionIterations (defaults (defaults_objects f))"
    and "\<not> input_missing f (objects (Common_extend f (defaults (defaults_objects f)) options))"
  shows "\<exists>e. Engine_create f (Element :: ('x, 'w) element) options = Inr (Engine e)
           \<and> velocityIterations e = 4 \<and> positionIterations e = 6"
proof -
  obtain e where r: "Engine_create f (Element :: ('x, 'w) element) options = Inr (Engine e)"
    and s: "same_settings (Common_extend f (defaults (defaults_objects f)) options) e"
    using Engine_create_Element [OF assms(3)] by blast
  have "velocityIterations e = velocityIterations (defaults (defaults_objects f))"
    "positionIterations e = positionIterations (defaults (defaults_objects f))"
    using s assms(1,2) by (simp_all add: same_settings_def)
  then have "velocityIterations e = 4" "positionIterations e = 6"
    by (simp_all add: defaults_def)
  with r show ?thesis by blast
qed

text \<open>
  Claim C3, for a DOM element, options that override nothing and constructors that count
  their calls: the engine returned is the defaults, on the store after eight calls.
\<close>

theorem Engine_create_iterations_witness:
  "velocityIterations (Common_extend plain_factories (defaults (defaults_objects plain_factories)) ()) =
     velocityIterations (defaults (defaults_objects plain_factories))
   \<and> positionIterations (Common_extend plain_factories (defaults (defaults_objects plain_factories)) ()) =
     positionIterations (defaults (defaults_objects plain_factories))
   \<and> \<not> input_missing plain_factories
         (objects (Common_extend plain_factories (defaults (defaults_objects plain_factories)) ()))
   \<and> Engine_create plain_factories (Element :: (unit, nat) element) () = Inr (Engine (defaults 8))
   \<and> (\<exists>e. Engine_create plain_factories (Element :: (unit, nat) element) () = Inr (Engine e)
           \<and> velocityIterations e = 4 \<and> positionIterations e = 6)"
proof -
  have 1: "velocityIterations (Common_extend plain_factories (defaults (defaults_objects plain_factories)) ()) =
     velocityIterations (defaults (defaults_objects plain_factories))"
    and 2: "positionIterations (Common_extend plain_factories (defaults (defaults_objects plain_factories)) ()) =
     positionIterations (defaults (defaults_objects plain_factories))"
    and 3: "\<not> input_missing plain_factories
         (objects (Common_extend plain_factories (defaults (defaults_objects plain_factories)) ()))"
    by (simp_all add: plain_factories_def)
  have 4: "Engine_create plain_factories (Element :: (unit, nat) element) () = Inr (Engine (defaults 8))"
    by code_simp
  from 1 2 3 4 Engine_create_iterations [OF 1 2 3, where 'x = unit] show ?thesis
    by blast
qed

end
